theory Spec2Isabelle
  imports Complex_Main
begin

section \<open>Station dataset assembly (radio service module)\<close>

subsection \<open>JavaScript values\<close>

text \<open>
  A JavaScript \<open>number\<close> is a finite value, \<open>NaN\<close> or one of the two infinities.
  Finite doubles are read as the reals they denote. An optional field
  (\<open>geoLat?: number\<close>) is an \<open>option\<close>: \<open>None\<close> is \<open>undefined\<close>.
\<close>

datatype jsnum = Num real | NaN | PosInfinity | NegInfinity

text \<open>
  Truthiness of an optional number, as used by \<open>station.geoLat && ...\<close> and
  \<open>!station.geoLat\<close>: \<open>undefined\<close>, \<open>0\<close> and \<open>NaN\<close> are falsy, everything else is truthy.
\<close>

fun truthy :: "jsnum option \<Rightarrow> bool" where
  "truthy None = False"
| "truthy (Some (Num x)) = (x \<noteq> 0)"
| "truthy (Some NaN) = False"
| "truthy (Some PosInfinity) = True"
| "truthy (Some NegInfinity) = True"

text \<open>The global \<open>isNaN\<close>: \<open>undefined\<close> converts to \<open>NaN\<close>.\<close>

fun isNaN :: "jsnum option \<Rightarrow> bool" where
  "isNaN None = True"
| "isNaN (Some NaN) = True"
| "isNaN (Some (Num x)) = False"
| "isNaN (Some PosInfinity) = False"
| "isNaN (Some NegInfinity) = False"

text \<open>
  \<open>x.toFixed(6)\<close> followed by \<open>parseFloat\<close>: the decimal with six fractional digits
  nearest to \<open>x\<close>; of two equally near ones the larger in magnitude (the sign is split off
  first, then the larger candidate is picked).
\<close>

definition toFixed6 :: "real \<Rightarrow> real" where
  "toFixed6 x =
     (if x < 0 then - real_of_int \<lfloor>(- x) * 1000000 + 1 / 2\<rfloor> / 1000000
      else real_of_int \<lfloor>x * 1000000 + 1 / 2\<rfloor> / 1000000)"

subsection \<open>Data model\<close>

record RadioStation =
  stationId :: string
  name :: string
  url :: string
  favicon :: string
  countryCode :: string
  country :: string
  state :: string
  language :: "string list"
  codec :: string
  bitrate :: int
  votes :: int
  geoLat :: "jsnum option"
  geoLong :: "jsnum option"

record important_country =
  cname :: string
  code :: string

definition IMPORTANT_COUNTRIES :: "important_country list" where
  "IMPORTANT_COUNTRIES =
     [\<lparr>cname = ''India'', code = ''IN''\<rparr>,
      \<lparr>cname = ''United States'', code = ''US''\<rparr>,
      \<lparr>cname = ''United Kingdom'', code = ''GB''\<rparr>,
      \<lparr>cname = ''Japan'', code = ''JP''\<rparr>,
      \<lparr>cname = ''China'', code = ''CN''\<rparr>,
      \<lparr>cname = ''Australia'', code = ''AU''\<rparr>,
      \<lparr>cname = ''Brazil'', code = ''BR''\<rparr>,
      \<lparr>cname = ''Russia'', code = ''RU''\<rparr>]"

record bounds =
  lat :: "real \<times> real"
  long :: "real \<times> real"

text \<open>
  A property read \<open>obj[key]\<close> on an object literal finds the object's own entry, or a
  member the object inherits from \<open>Object.prototype\<close>, or \<open>undefined\<close>. Every inherited
  member is truthy (a function, or for \<open>__proto__\<close> the prototype object) and has no
  property \<open>lat\<close>.
\<close>

datatype 'a member = Undefined | Own 'a | Inherited

definition objectPrototypeMembers :: "string list" where
  "objectPrototypeMembers =
     [''constructor'', ''__defineGetter__'', ''__defineSetter__'', ''hasOwnProperty'',
      ''__lookupGetter__'', ''__lookupSetter__'', ''isPrototypeOf'', ''propertyIsEnumerable'',
      ''toString'', ''valueOf'', ''__proto__'', ''toLocaleString'']"

text \<open>The entries of the literal, and a read of the table at a country code.\<close>

definition boundsEntries :: "(string \<times> bounds) list" where
  "boundsEntries =
     [(''IN'', \<lparr>lat = (8, 35), long = (68, 97)\<rparr>),
      (''US'', \<lparr>lat = (24, 49), long = (-125, -66)\<rparr>),
      (''GB'', \<lparr>lat = (49, 59), long = (-8, 2)\<rparr>),
      (''JP'', \<lparr>lat = (30, 46), long = (129, 146)\<rparr>),
      (''CN'', \<lparr>lat = (18, 54), long = (73, 135)\<rparr>),
      (''AU'', \<lparr>lat = (-43, -10), long = (113, 154)\<rparr>),
      (''BR'', \<lparr>lat = (-33, 5), long = (-74, -34)\<rparr>),
      (''RU'', \<lparr>lat = (41, 82), long = (19, 180)\<rparr>)]"

definition COUNTRY_BOUNDARIES :: "string \<Rightarrow> bounds member" where
  "COUNTRY_BOUNDARIES cc =
     (case map_of boundsEntries cc of
        Some b \<Rightarrow> Own b
      | None \<Rightarrow> if cc \<in> set objectPrototypeMembers then Inherited else Undefined)"

subsection \<open>The directory service\<close>

text \<open>
  \<open>api.searchStations\<close> is external. A call either rejects with an error or resolves to
  a list of stations; the service is a function of the query, and every call is logged so
  that the queries the assembler issues can be observed. A computation that calls the
  service returns the calls it made, in order, next to its result.
\<close>

datatype js_error = Error string | TypeError string

record query =
  countryCodeQ :: "string option"
  limitQ :: nat
  hasGeoInfoQ :: "bool option"

type_synonym api = "query \<Rightarrow> js_error + RadioStation list"

type_synonym 'a io = "query list \<times> 'a"

definition searchStations :: "api \<Rightarrow> query \<Rightarrow> (js_error + RadioStation list) io" where
  "searchStations service q = ([q], service q)"

text \<open>\<open>getRadioStationsForCountry\<close>: the \<open>catch\<close> turns a rejected query into \<open>[]\<close>.\<close>

definition getRadioStationsForCountry :: "api \<Rightarrow> string \<Rightarrow> nat \<Rightarrow> RadioStation list io" where
  "getRadioStationsForCountry service cc limit =
     (case searchStations service \<lparr>countryCodeQ = Some cc, limitQ = limit, hasGeoInfoQ = None\<rparr> of
        (calls, Inr stations) \<Rightarrow> (calls, stations)
      | (calls, Inl error) \<Rightarrow> (calls, []))"

text \<open>
  \<open>Promise.all\<close> over promises that were started in list order: the calls are logged in
  that order and the results are joined in that order.
\<close>

definition promiseAll :: "'a io list \<Rightarrow> 'a list io" where
  "promiseAll ps = (concat (map fst ps), map snd ps)"

subsection \<open>Coordinate synthesis\<close>

text \<open>
  Arithmetic on numbers is arithmetic on doubles: every operation returns the double
  nearest to the exact result. The rounding is a parameter \<open>fl\<close> of the functions below,
  applied after each operation of the source; \<open>parseFloat\<close> rounds the decimal it reads
  in the same way, and \<open>toFixed\<close> works on the exact value of its double.

  \<open>Math.random()\<close> is a stream of draws \<open>rnd 0, rnd 1, ...\<close> and a position in it.
  \<open>getRandomCoordinateForCountry\<close> returns \<open>null\<close> before drawing when the read of the
  table is \<open>undefined\<close>. An inherited member passes the test \<open>!bounds\<close>, and the read
  \<open>bounds.lat[0]\<close> that follows throws a \<open>TypeError\<close>, before any draw. Otherwise two
  draws are taken, the latitude's first.
\<close>

definition getRandomCoordinateForCountry ::
    "(real \<Rightarrow> real) \<Rightarrow> (nat \<Rightarrow> real) \<Rightarrow> nat \<Rightarrow> string \<Rightarrow>
       js_error + ((real \<times> real) option \<times> nat)" where
  "getRandomCoordinateForCountry fl rnd k cc =
     (case COUNTRY_BOUNDARIES cc of
        Undefined \<Rightarrow> Inr (None, k)
      | Inherited \<Rightarrow> Inl (TypeError ''bounds.lat is undefined'')
      | Own b \<Rightarrow>
          (let randomLat = fl (fst (lat b) + fl (rnd k * fl (snd (lat b) - fst (lat b))));
               randomLong = fl (fst (long b) + fl (rnd (k + 1) * fl (snd (long b) - fst (long b))))
           in Inr (Some (fl (toFixed6 randomLat), fl (toFixed6 randomLong)), k + 2)))"

text \<open>The test of the \<open>map\<close> callback: the station lacks valid coordinates.\<close>

definition lacksCoordinates :: "RadioStation \<Rightarrow> bool" where
  "lacksCoordinates station \<longleftrightarrow>
     \<not> truthy (geoLat station) \<or> \<not> truthy (geoLong station) \<or>
     isNaN (geoLat station) \<or> isNaN (geoLong station)"

text \<open>
  \<open>additionalStations.map(...)\<close>: a station lacking coordinates gets the synthesized pair
  spread over it (\<open>{ ...station, ...randomCoords }\<close>) when its country has bounds, and is
  returned as it is when \<open>getRandomCoordinateForCountry\<close> returns \<open>null\<close>. A throw of the
  callback ends the \<open>map\<close>.
\<close>

fun assignCoordinates ::
    "(real \<Rightarrow> real) \<Rightarrow> (nat \<Rightarrow> real) \<Rightarrow> nat \<Rightarrow> RadioStation list \<Rightarrow>
       js_error + RadioStation list" where
  "assignCoordinates fl rnd k [] = Inr []"
| "assignCoordinates fl rnd k (station # rest) =
     (if lacksCoordinates station then
        (case getRandomCoordinateForCountry fl rnd k (countryCode station) of
           Inl e \<Rightarrow> Inl e
         | Inr (Some (la, lo), k') \<Rightarrow>
             (case assignCoordinates fl rnd k' rest of
                Inl e \<Rightarrow> Inl e
              | Inr rest' \<Rightarrow>
                  Inr (station\<lparr>geoLat := Some (Num la), geoLong := Some (Num lo)\<rparr> # rest'))
         | Inr (None, k') \<Rightarrow>
             (case assignCoordinates fl rnd k' rest of
                Inl e \<Rightarrow> Inl e
              | Inr rest' \<Rightarrow> Inr (station # rest')))
      else
        (case assignCoordinates fl rnd k rest of
           Inl e \<Rightarrow> Inl e
         | Inr rest' \<Rightarrow> Inr (station # rest')))"

subsection \<open>The assembler\<close>

text \<open>The filter on the primary query's result.\<close>

definition validGeoStations :: "RadioStation list \<Rightarrow> RadioStation list" where
  "validGeoStations stationsWithGeo =
     filter (\<lambda>station. truthy (geoLat station) \<and> truthy (geoLong station) \<and>
                        \<not> isNaN (geoLat station) \<and> \<not> isNaN (geoLong station))
       stationsWithGeo"

text \<open>
  The \<open>reduce\<close> that counts the valid stations of each country. The accumulator is an
  object literal too, but of its entries only those of the priority codes are read
  afterwards, and none of these names an inherited member: what JavaScript keeps under
  any other key has no effect.
\<close>

definition countStation :: "(string \<rightharpoonup> nat) \<Rightarrow> RadioStation \<Rightarrow> (string \<rightharpoonup> nat)" where
  "countStation acc station =
     (let c = (if countryCode station \<noteq> [] then countryCode station else ''unknown'')
      in acc(c \<mapsto> (case acc c of None \<Rightarrow> 0 | Some n \<Rightarrow> n) + 1))"

definition countryCounts :: "RadioStation list \<Rightarrow> (string \<rightharpoonup> nat)" where
  "countryCounts validGeo = foldl countStation Map.empty validGeo"

text \<open>
  The filter on the priority list:
  \<open>!countryCounts[country.code] || countryCounts[country.code] < 5\<close>.
\<close>

definition fewStations :: "(string \<rightharpoonup> nat) \<Rightarrow> important_country \<Rightarrow> bool" where
  "fewStations counts c \<longleftrightarrow>
     (case counts (code c) of None \<Rightarrow> True | Some n \<Rightarrow> n = 0 \<or> n < 5)"

text \<open>
  The \<open>forEach\<close> that merges: a station is pushed when no station already in the result
  has its id and both of its coordinates are truthy.
\<close>

fun mergeStations :: "RadioStation list \<Rightarrow> RadioStation list \<Rightarrow> RadioStation list" where
  "mergeStations allStations [] = allStations"
| "mergeStations allStations (station # rest) =
     mergeStations
       (if \<not> list_ex (\<lambda>s. stationId s = stationId station) allStations \<and>
           truthy (geoLat station) \<and> truthy (geoLong station)
        then allStations @ [station] else allStations)
       rest"

text \<open>The intermediate values of the \<open>try\<close> block, named as in the source.\<close>

definition additionalStationsPromises :: "api \<Rightarrow> RadioStation list \<Rightarrow> RadioStation list io list" where
  "additionalStationsPromises service validGeo =
     map (\<lambda>c. getRadioStationsForCountry service (code c) 20)
       (filter (fewStations (countryCounts validGeo)) IMPORTANT_COUNTRIES)"

definition getRadioStationsWithGeoData_try ::
    "api \<Rightarrow> (real \<Rightarrow> real) \<Rightarrow> (nat \<Rightarrow> real) \<Rightarrow> nat \<Rightarrow>
       (js_error + RadioStation list) io" where
  "getRadioStationsWithGeoData_try service fl rnd limit =
     (case searchStations service \<lparr>countryCodeQ = None, limitQ = limit, hasGeoInfoQ = Some True\<rparr> of
        (calls, Inl error) \<Rightarrow> (calls, Inl error)
      | (calls, Inr stationsWithGeo) \<Rightarrow>
          (let validGeo = validGeoStations stationsWithGeo;
               (calls', additionalStationsArrays) =
                  promiseAll (additionalStationsPromises service validGeo)
           in case assignCoordinates fl rnd 0 (concat additionalStationsArrays) of
                Inl error \<Rightarrow> (calls @ calls', Inl error)
              | Inr additionalStations \<Rightarrow>
                  (calls @ calls', Inr (mergeStations validGeo additionalStations))))"

text \<open>The whole function: whatever the \<open>try\<close> block throws is caught and \<open>[]\<close> returned.\<close>

definition getRadioStationsWithGeoData ::
    "api \<Rightarrow> (real \<Rightarrow> real) \<Rightarrow> (nat \<Rightarrow> real) \<Rightarrow> nat \<Rightarrow>
       (js_error + RadioStation list) io" where
  "getRadioStationsWithGeoData service fl rnd limit =
     (case getRadioStationsWithGeoData_try service fl rnd limit of
        (calls, Inl error) \<Rightarrow> (calls, Inr [])
      | (calls, Inr allStations) \<Rightarrow> (calls, Inr allStations))"

subsection \<open>Vocabulary of the statements\<close>

text \<open>The two kinds of query the assembler sends.\<close>

definition primaryQuery :: "nat \<Rightarrow> query" where
  "primaryQuery limit = \<lparr>countryCodeQ = None, limitQ = limit, hasGeoInfoQ = Some True\<rparr>"

definition countryQuery :: "string \<Rightarrow> nat \<Rightarrow> query" where
  "countryQuery cc limit = \<lparr>countryCodeQ = Some cc, limitQ = limit, hasGeoInfoQ = None\<rparr>"

text \<open>\<open>additionalStationsArrays.flat()\<close>: the stations the supplementary queries returned.\<close>

definition additionalStationsFetched :: "api \<Rightarrow> RadioStation list \<Rightarrow> RadioStation list" where
  "additionalStationsFetched service validGeo =
     concat (snd (promiseAll (additionalStationsPromises service validGeo)))"

text \<open>
  What is asked of the rounding: it is monotone and leaves the integers up to \<open>2^53\<close>
  as they are, as rounding to the nearest double does. \<open>noRounding\<close> is the rounding of
  a computation all of whose values are doubles already.
\<close>

definition roundsLikeDouble :: "(real \<Rightarrow> real) \<Rightarrow> bool" where
  "roundsLikeDouble fl \<longleftrightarrow>
     (\<forall>x y. x \<le> y \<longrightarrow> fl x \<le> fl y) \<and>
     (\<forall>z::int. \<bar>z\<bar> \<le> 2 ^ 53 \<longrightarrow> fl (real_of_int z) = real_of_int z)"

definition noRounding :: "real \<Rightarrow> real" where
  "noRounding x = x"

text \<open>
  The coordinates synthesized from draw \<open>k\<close> (latitude) and draw \<open>k + 1\<close> (longitude), the
  stations for which the assembler draws, those at which the callback throws, the number
  of draws taken before the \<open>i\<close>-th station, and the \<open>map\<close> callback applied to one station
  at draw position \<open>k\<close> when it does not throw.
\<close>

definition synthesizedLat :: "(real \<Rightarrow> real) \<Rightarrow> (nat \<Rightarrow> real) \<Rightarrow> nat \<Rightarrow> bounds \<Rightarrow> real" where
  "synthesizedLat fl rnd k b =
     fl (toFixed6 (fl (fst (lat b) + fl (rnd k * fl (snd (lat b) - fst (lat b))))))"

definition synthesizedLong :: "(real \<Rightarrow> real) \<Rightarrow> (nat \<Rightarrow> real) \<Rightarrow> nat \<Rightarrow> bounds \<Rightarrow> real" where
  "synthesizedLong fl rnd k b =
     fl (toFixed6 (fl (fst (long b) + fl (rnd (k + 1) * fl (snd (long b) - fst (long b))))))"

definition synthesizable :: "RadioStation \<Rightarrow> bool" where
  "synthesizable s \<longleftrightarrow>
     lacksCoordinates s \<and>
     (case COUNTRY_BOUNDARIES (countryCode s) of Own b \<Rightarrow> True | _ \<Rightarrow> False)"

definition throwsTypeError :: "RadioStation \<Rightarrow> bool" where
  "throwsTypeError s \<longleftrightarrow> lacksCoordinates s \<and> COUNTRY_BOUNDARIES (countryCode s) = Inherited"

definition drawsBefore :: "RadioStation list \<Rightarrow> nat \<Rightarrow> nat" where
  "drawsBefore ss i = 2 * length (filter synthesizable (take i ss))"

definition assignCoordinate ::
    "(real \<Rightarrow> real) \<Rightarrow> (nat \<Rightarrow> real) \<Rightarrow> nat \<Rightarrow> RadioStation \<Rightarrow> RadioStation" where
  "assignCoordinate fl rnd k s =
     (if lacksCoordinates s then
        (case COUNTRY_BOUNDARIES (countryCode s) of
           Own b \<Rightarrow> s\<lparr>geoLat := Some (Num (synthesizedLat fl rnd k b)),
                       geoLong := Some (Num (synthesizedLong fl rnd k b))\<rparr>
         | _ \<Rightarrow> s)
      else s)"

text \<open>The key under which the \<open>reduce\<close> counts a station.\<close>

definition countKey :: "RadioStation \<Rightarrow> string" where
  "countKey s = (if countryCode s \<noteq> [] then countryCode s else ''unknown'')"

text \<open>
  A record with valid coordinates, as the specification counts it: latitude and longitude
  both present and not \<open>NaN\<close>.
\<close>

definition hasValidCoordinates :: "RadioStation \<Rightarrow> bool" where
  "hasValidCoordinates s \<longleftrightarrow>
     geoLat s \<noteq> None \<and> geoLat s \<noteq> Some NaN \<and> geoLong s \<noteq> None \<and> geoLong s \<noteq> Some NaN"

text \<open>A finite latitude in \<open>[-90,90]\<close>, a finite longitude in \<open>[-180,180]\<close>.\<close>

definition validLatitude :: "jsnum option \<Rightarrow> bool" where
  "validLatitude v = (case v of Some (Num x) \<Rightarrow> - 90 \<le> x \<and> x \<le> 90 | _ \<Rightarrow> False)"

definition validLongitude :: "jsnum option \<Rightarrow> bool" where
  "validLongitude v = (case v of Some (Num x) \<Rightarrow> - 180 \<le> x \<and> x \<le> 180 | _ \<Rightarrow> False)"

subsection \<open>Sample stations and directories\<close>

definition station0 :: RadioStation where
  "station0 = \<lparr>stationId = [], name = [], url = [], favicon = [], countryCode = [],
     country = [], state = [], language = [], codec = ''MP3'', bitrate = 128, votes = 0,
     geoLat = None, geoLong = None\<rparr>"

text \<open>A directory that answers the primary query with one list and each country its own way.\<close>

definition serviceOf :: "RadioStation list \<Rightarrow> (string \<Rightarrow> js_error + RadioStation list) \<Rightarrow> api" where
  "serviceOf primary byCountry q =
     (case countryCodeQ q of None \<Rightarrow> Inr primary | Some cc \<Rightarrow> byCountry cc)"

definition noCountry :: "string \<Rightarrow> js_error + RadioStation list" where
  "noCountry cc = Inl (Error ''unavailable'')"

text \<open>
  A stream of draws that are all \<open>1/2\<close>. With it every value the synthesis computes
  from the table is a multiple of \<open>1/2\<close> below \<open>180\<close>, a double: nothing is rounded.
\<close>

definition half :: "nat \<Rightarrow> real" where
  "half k = 1 / 2"

definition farStation :: RadioStation where
  "farStation = station0\<lparr>stationId := ''far'', countryCode := ''XX'',
     geoLat := Some (Num 100), geoLong := Some (Num 200)\<rparr>"

definition equatorStation :: RadioStation where
  "equatorStation = station0\<lparr>stationId := ''eq'', countryCode := ''EC'',
     geoLat := Some (Num 0), geoLong := Some (Num (- 78))\<rparr>"

definition dupA :: RadioStation where
  "dupA = station0\<lparr>stationId := ''dup'', name := ''A'', countryCode := ''FR'',
     geoLat := Some (Num 48), geoLong := Some (Num 2)\<rparr>"

definition dupB :: RadioStation where
  "dupB = station0\<lparr>stationId := ''dup'', name := ''B'', countryCode := ''FR'',
     geoLat := Some (Num 45), geoLong := Some (Num 5)\<rparr>"

definition gbStation :: "string \<Rightarrow> RadioStation" where
  "gbStation i = station0\<lparr>stationId := i, countryCode := ''GB'',
     geoLat := Some (Num 51), geoLong := Some (Num (- 1))\<rparr>"

definition usStation :: RadioStation where
  "usStation = station0\<lparr>stationId := ''us1'', countryCode := ''US'',
     geoLat := Some (Num 40), geoLong := Some (Num (- 100))\<rparr>"

definition inBare :: RadioStation where
  "inBare = station0\<lparr>stationId := ''in1'', countryCode := ''IN''\<rparr>"

definition inGeo :: RadioStation where
  "inGeo = station0\<lparr>stationId := ''in2'', countryCode := ''IN'',
     geoLat := Some (Num 19), geoLong := Some (Num 73)\<rparr>"

definition inLower :: RadioStation where
  "inLower = station0\<lparr>stationId := ''in3'', countryCode := ''in''\<rparr>"

definition jpBare :: RadioStation where
  "jpBare = station0\<lparr>stationId := ''jp1'', countryCode := ''JP''\<rparr>"

text \<open>
  The sample directory: one US and five GB stations with coordinates from the primary
  query; the query for \<open>IN\<close> returns three stations, the one for \<open>JP\<close> one, the one for
  \<open>US\<close> fails, every other returns nothing.
\<close>

definition demoPrimary :: "RadioStation list" where
  "demoPrimary = [usStation, gbStation ''gb1'', gbStation ''gb2'', gbStation ''gb3'',
     gbStation ''gb4'', gbStation ''gb5'']"

definition demoByCountry :: "string \<Rightarrow> js_error + RadioStation list" where
  "demoByCountry cc =
     (if cc = ''IN'' then Inr [inBare, inGeo, inLower]
      else if cc = ''JP'' then Inr [jpBare]
      else if cc = ''US'' then Inl (Error ''timeout'')
      else Inr [])"

definition demoService :: api where
  "demoService = serviceOf demoPrimary demoByCountry"

definition demoOutput :: "RadioStation list" where
  "demoOutput = demoPrimary @
     [inBare\<lparr>geoLat := Some (Num (43 / 2)), geoLong := Some (Num (165 / 2))\<rparr>,
      inGeo,
      jpBare\<lparr>geoLat := Some (Num 38), geoLong := Some (Num (275 / 2))\<rparr>]"

text \<open>A directory that is down, and a station whose country code names an inherited member.\<close>

definition downService :: api where
  "downService q = Inl (Error ''unavailable'')"






text \<open>
  Five Japanese stations with coordinates, the first of them on the equator: a primary
  result in which a valid coordinate is \<open>0\<close>.
\<close>

definition jpStation :: "string \<Rightarrow> real \<Rightarrow> RadioStation" where
  "jpStation i la = station0\<lparr>stationId := i, countryCode := ''JP'',
     geoLat := Some (Num la), geoLong := Some (Num 139)\<rparr>"

definition jpFive :: "RadioStation list" where
  "jpFive = [jpStation ''jp0'' 0, jpStation ''jp1'' 35, jpStation ''jp2'' 36,
     jpStation ''jp3'' 37, jpStation ''jp4'' 38]"

section \<open>The audio player component\<close>

subsection \<open>The audio engine\<close>

text \<open>
  A \<open>Howl\<close> is an engine handle: the options it was created with (\<open>src\<close>, \<open>html5\<close>,
  \<open>format\<close>, \<open>volume\<close>) and what the component has asked of it since (\<open>play\<close>, \<open>pause\<close>,
  \<open>volume\<close>, \<open>unload\<close>). The engine is external; the store \<open>howls\<close> of the player below
  keeps every handle ever created, a handle being its index, so that a released handle
  can still be told apart from the live one.
\<close>

record Howl =
  src :: "string list"
  html5 :: bool
  format :: "string list"
  volumeH :: real
  playingH :: bool
  unloadedH :: bool

definition newHowl :: "string \<Rightarrow> real \<Rightarrow> Howl" where
  "newHowl u v = \<lparr>src = [u], html5 = True, format = [''mp3'', ''aac''], volumeH = v,
     playingH = False, unloadedH = False\<rparr>"

definition play :: "nat \<Rightarrow> Howl list \<Rightarrow> Howl list" where
  "play h hs = hs[h := (hs ! h)\<lparr>playingH := True\<rparr>]"

definition pause :: "nat \<Rightarrow> Howl list \<Rightarrow> Howl list" where
  "pause h hs = hs[h := (hs ! h)\<lparr>playingH := False\<rparr>]"

definition setVolumeH :: "nat \<Rightarrow> real \<Rightarrow> Howl list \<Rightarrow> Howl list" where
  "setVolumeH h v hs = hs[h := (hs ! h)\<lparr>volumeH := v\<rparr>]"

definition unload :: "nat \<Rightarrow> Howl list \<Rightarrow> Howl list" where
  "unload h hs = hs[h := (hs ! h)\<lparr>playingH := False, unloadedH := True\<rparr>]"

text \<open>The notifications a handle was given callbacks for.\<close>

datatype howl_event = OnPlay | OnLoad | OnLoadError | OnPlayError | OnStop | OnEnd

subsection \<open>Component state\<close>

text \<open>
  The prop \<open>station\<close>, the four \<open>useState\<close> cells, the ref \<open>soundRef\<close>, the engine's
  handles, and whether the component is mounted.
\<close>

record AudioPlayer =
  station :: "RadioStation option"
  isPlaying :: bool
  volume :: real
  isLoading :: bool
  error :: "string option"
  soundRef :: "nat option"
  howls :: "Howl list"
  mounted :: bool

subsection \<open>Effects and handlers\<close>

text \<open>
  \<open>if (soundRef.current) { soundRef.current.unload(); soundRef.current = null; }\<close>, which
  both the body of the station effect and its cleanup function run.
\<close>

definition releaseSound :: "AudioPlayer \<Rightarrow> AudioPlayer" where
  "releaseSound st =
     (case soundRef st of
        None \<Rightarrow> st
      | Some h \<Rightarrow> st\<lparr>soundRef := None, howls := unload h (howls st)\<rparr>)"

text \<open>
  The body of the effect on \<open>[station?.url]\<close>. \<open>station?.url\<close> is truthy for a station with
  a non-empty URL. The new handle is created with the \<open>volume\<close> of the render the effect
  belongs to and is asked to play at once.
\<close>

definition stationEffect :: "AudioPlayer \<Rightarrow> AudioPlayer" where
  "stationEffect st0 =
     (let st1 = releaseSound st0;
          st2 = st1\<lparr>error := None, isPlaying := False\<rparr>
      in case station st2 of
           None \<Rightarrow> st2
         | Some s \<Rightarrow>
             if url s \<noteq> [] then
               (let st3 = st2\<lparr>isLoading := True\<rparr>;
                    h = length (howls st3);
                    st4 = st3\<lparr>soundRef := Some h,
                              howls := howls st3 @ [newHowl (url s) (volume st3)]\<rparr>
                in st4\<lparr>howls := play h (howls st4)\<rparr>)
             else st2)"

text \<open>The function the station effect returns.\<close>

definition stationCleanup :: "AudioPlayer \<Rightarrow> AudioPlayer" where
  "stationCleanup st = releaseSound st"

text \<open>The effect on \<open>[volume]\<close>.\<close>

definition volumeEffect :: "AudioPlayer \<Rightarrow> AudioPlayer" where
  "volumeEffect st =
     (case soundRef st of
        None \<Rightarrow> st
      | Some h \<Rightarrow> st\<lparr>howls := setVolumeH h (volume st) (howls st)\<rparr>)"

text \<open>The dependency \<open>station?.url\<close>: \<open>undefined\<close> for no station.\<close>

definition urlDep :: "RadioStation option \<Rightarrow> string option" where
  "urlDep s = map_option url s"

text \<open>The first render runs both effects, in the order they are declared.\<close>

definition initialPlayer :: "RadioStation option \<Rightarrow> AudioPlayer" where
  "initialPlayer s = \<lparr>station = s, isPlaying = False, volume = 3 / 4, isLoading = False,
     error = None, soundRef = None, howls = [], mounted = True\<rparr>"

definition mount :: "RadioStation option \<Rightarrow> AudioPlayer" where
  "mount s = volumeEffect (stationEffect (initialPlayer s))"

text \<open>
  A render with a new \<open>station\<close> prop. React runs an effect again only when one of its
  dependencies has changed: first the previous run's cleanup, then the body.
\<close>

definition setStation :: "RadioStation option \<Rightarrow> AudioPlayer \<Rightarrow> AudioPlayer" where
  "setStation s st =
     (if urlDep s = urlDep (station st) then st\<lparr>station := s\<rparr>
      else stationEffect (stationCleanup (st\<lparr>station := s\<rparr>)))"

text \<open>
  \<open>handleVolumeChange\<close>: \<open>setVolume\<close> with the current value renders nothing; with a new
  value the component renders and the volume effect runs.
\<close>

definition handleVolumeChange :: "real \<Rightarrow> AudioPlayer \<Rightarrow> AudioPlayer" where
  "handleVolumeChange newVolume st =
     (if newVolume = volume st then st else volumeEffect (st\<lparr>volume := newVolume\<rparr>))"

definition togglePlayPause :: "AudioPlayer \<Rightarrow> AudioPlayer" where
  "togglePlayPause st =
     (case soundRef st of
        None \<Rightarrow> st
      | Some h \<Rightarrow>
          if isPlaying st then st\<lparr>howls := pause h (howls st), isPlaying := False\<rparr>
          else st\<lparr>howls := play h (howls st), isPlaying := True\<rparr>)"

text \<open>
  The callbacks passed to \<open>new Howl\<close>. They are closures over the state setters only: none
  of them looks at which handle is calling.
\<close>

fun howlCallback :: "howl_event \<Rightarrow> AudioPlayer \<Rightarrow> AudioPlayer" where
  "howlCallback OnPlay st = st\<lparr>isPlaying := True, isLoading := False\<rparr>"
| "howlCallback OnLoad st = st\<lparr>isLoading := False\<rparr>"
| "howlCallback OnLoadError st = st\<lparr>isLoading := False, error := Some ''Failed to load station''\<rparr>"
| "howlCallback OnPlayError st =
     st\<lparr>isPlaying := False, isLoading := False, error := Some ''Failed to play station''\<rparr>"
| "howlCallback OnStop st = st\<lparr>isPlaying := False\<rparr>"
| "howlCallback OnEnd st = st\<lparr>isPlaying := False\<rparr>"

text \<open>Unmounting runs the cleanup of the station effect.\<close>

definition unmount :: "AudioPlayer \<Rightarrow> AudioPlayer" where
  "unmount st = (stationCleanup st)\<lparr>mounted := False\<rparr>"

subsection \<open>Runs of the component\<close>

text \<open>
  What can happen to a mounted component: the parent passes another station, the user
  moves the volume slider or presses the button, the engine calls a callback of some
  handle it was given (\<open>HowlEvent h e\<close>, for any handle created so far, released or not:
  which callbacks fire is the engine's choice), or the component is unmounted. An
  unmounted component ignores everything.
\<close>

datatype event =
    StationChanged "RadioStation option"
  | VolumeChanged real
  | TogglePlayPause
  | HowlEvent nat howl_event
  | Unmount

definition step :: "AudioPlayer \<Rightarrow> event \<Rightarrow> AudioPlayer" where
  "step st ev =
     (if \<not> mounted st then st
      else case ev of
             StationChanged s \<Rightarrow> setStation s st
           | VolumeChanged v \<Rightarrow> handleVolumeChange v st
           | TogglePlayPause \<Rightarrow> togglePlayPause st
           | HowlEvent h e \<Rightarrow> if h < length (howls st) then howlCallback e st else st
           | Unmount \<Rightarrow> unmount st)"

definition run :: "AudioPlayer \<Rightarrow> event list \<Rightarrow> AudioPlayer" where
  "run st es = foldl step st es"

text \<open>The handles that have been created and not unloaded.\<close>

definition liveHowls :: "AudioPlayer \<Rightarrow> nat list" where
  "liveHowls st = filter (\<lambda>h. \<not> unloadedH (howls st ! h)) [0..<length (howls st)]"

text \<open>The events that leave the volume alone.\<close>

definition keepsVolume :: "event \<Rightarrow> bool" where
  "keepsVolume ev = (case ev of VolumeChanged v \<Rightarrow> False | _ \<Rightarrow> True)"

text \<open>
  The invariant of every run: a handle is live exactly when \<open>soundRef\<close> holds it, and the
  handle \<open>soundRef\<close> holds has the component's volume and plays the selected station's URL.
\<close>

definition sessionInv :: "AudioPlayer \<Rightarrow> bool" where
  "sessionInv st \<longleftrightarrow>
     (\<forall>h < length (howls st). (\<not> unloadedH (howls st ! h)) = (soundRef st = Some h)) \<and>
     (\<forall>h. soundRef st = Some h \<longrightarrow>
        h < length (howls st) \<and> volumeH (howls st ! h) = volume st \<and>
        (\<exists>s. station st = Some s \<and> url s \<noteq> [] \<and> src (howls st ! h) = [url s]))"

text \<open>A state in which every handle is released.\<close>

definition released :: "AudioPlayer \<Rightarrow> bool" where
  "released st \<longleftrightarrow> soundRef st = None \<and> (\<forall>h < length (howls st). unloadedH (howls st ! h))"

subsection \<open>Sample stations and players\<close>

text \<open>Stations \<open>A\<close> and \<open>B\<close> share a stream URL; station \<open>C\<close> has another.\<close>

definition stationA :: RadioStation where
  "stationA = station0\<lparr>stationId := ''a'', name := ''Station A'', url := ''http://stream.example/one''\<rparr>"

definition stationB :: RadioStation where
  "stationB = station0\<lparr>stationId := ''b'', name := ''Station B'', url := ''http://stream.example/one''\<rparr>"

definition stationC :: RadioStation where
  "stationC = station0\<lparr>stationId := ''c'', name := ''Station C'', url := ''http://stream.example/two''\<rparr>"

definition howlOne :: "real \<Rightarrow> bool \<Rightarrow> bool \<Rightarrow> Howl" where
  "howlOne v p u = \<lparr>src = [''http://stream.example/one''], html5 = True,
     format = [''mp3'', ''aac''], volumeH = v, playingH = p, unloadedH = u\<rparr>"

definition howlTwo :: "real \<Rightarrow> bool \<Rightarrow> bool \<Rightarrow> Howl" where
  "howlTwo v p u = \<lparr>src = [''http://stream.example/two''], html5 = True,
     format = [''mp3'', ''aac''], volumeH = v, playingH = p, unloadedH = u\<rparr>"

text \<open>The player after mounting with \<open>A\<close>, and after the selection then moved to \<open>C\<close>.\<close>

definition playerA :: AudioPlayer where
  "playerA = \<lparr>station = Some stationA, isPlaying = False, volume = 3 / 4, isLoading = True,
     error = None, soundRef = Some 0, howls = [howlOne (3 / 4) True False], mounted = True\<rparr>"

definition playerAC :: AudioPlayer where
  "playerAC = \<lparr>station = Some stationC, isPlaying = False, volume = 3 / 4, isLoading = True,
     error = None, soundRef = Some 1,
     howls = [howlOne (3 / 4) False True, howlTwo (3 / 4) True False], mounted = True\<rparr>"

section \<open>Properties of the station dataset assembly\<close>

lemma getRadioStationsForCountry_eq:
  "getRadioStationsForCountry service cc limit =
     ([countryQuery cc limit],
      case service (countryQuery cc limit) of Inl e \<Rightarrow> [] | Inr stations \<Rightarrow> stations)"
  by (simp add: getRadioStationsForCountry_def searchStations_def countryQuery_def split: sum.splits)

lemma assembler_primary_failed:
  "service (primaryQuery limit) = Inl e \<Longrightarrow>
   getRadioStationsWithGeoData service fl rnd limit = ([primaryQuery limit], Inr [])"
  by (simp add: getRadioStationsWithGeoData_def getRadioStationsWithGeoData_try_def
      searchStations_def primaryQuery_def)

lemma assembler_primary_ok:
  "service (primaryQuery limit) = Inr xs \<Longrightarrow>
   getRadioStationsWithGeoData service fl rnd limit =
     (primaryQuery limit # concat (map fst (additionalStationsPromises service (validGeoStations xs))),
      Inr (case assignCoordinates fl rnd 0 (additionalStationsFetched service (validGeoStations xs)) of
             Inl e \<Rightarrow> []
           | Inr additionalStations \<Rightarrow> mergeStations (validGeoStations xs) additionalStations))"
  by (simp add: getRadioStationsWithGeoData_def getRadioStationsWithGeoData_try_def
      searchStations_def primaryQuery_def promiseAll_def additionalStationsFetched_def Let_def
      split: sum.splits)

lemma mergeStations_append:
  "\<exists>ys. mergeStations all add = all @ ys \<and> set ys \<subseteq> {s \<in> set add. truthy (geoLat s) \<and> truthy (geoLong s)}"
proof (induction add arbitrary: all)
  case Nil
  then show ?case by simp
next
  case (Cons a add)
  show ?case
  proof (cases "\<not> list_ex (\<lambda>s. stationId s = stationId a) all \<and> truthy (geoLat a) \<and> truthy (geoLong a)")
    case True
    from Cons.IH[of "all @ [a]"] obtain ys where
      "mergeStations (all @ [a]) add = (all @ [a]) @ ys"
      "set ys \<subseteq> {s \<in> set add. truthy (geoLat s) \<and> truthy (geoLong s)}" by blast
    with True show ?thesis by (intro exI[of _ "a # ys"]) auto
  next
    case False
    from Cons.IH[of all] obtain ys where
      "mergeStations all add = all @ ys"
      "set ys \<subseteq> {s \<in> set add. truthy (geoLat s) \<and> truthy (geoLong s)}" by blast
    with False show ?thesis by (intro exI[of _ ys]) auto
  qed
qed

lemma mergeStations_set:
  "s \<in> set (mergeStations all add) \<Longrightarrow>
   s \<in> set all \<or> (s \<in> set add \<and> truthy (geoLat s) \<and> truthy (geoLong s))"
  using mergeStations_append[of all add] by auto

lemma mergeStations_distinct:
  "distinct (map stationId all) \<Longrightarrow> distinct (map stationId (mergeStations all add))"
proof (induction add arbitrary: all)
  case Nil
  then show ?case by simp
next
  case (Cons a add)
  have "distinct (map stationId (if \<not> list_ex (\<lambda>s. stationId s = stationId a) all \<and>
           truthy (geoLat a) \<and> truthy (geoLong a) then all @ [a] else all))"
    using Cons.prems by (auto simp: list_ex_iff)
  from Cons.IH[OF this] show ?case by simp
qed

lemma toFixed6_bounds:
  assumes "real_of_int lo \<le> x" "x \<le> real_of_int hi"
  shows "real_of_int lo \<le> toFixed6 x \<and> toFixed6 x \<le> real_of_int hi"
proof (cases "x < 0")
  case True
  have a: "\<lfloor>(- x) * 1000000 + 1 / 2\<rfloor> \<le> - lo * 1000000"
    using assms(1) by linarith
  have b: "- hi * 1000000 \<le> \<lfloor>(- x) * 1000000 + 1 / 2\<rfloor>"
    using assms(2) by linarith
  from a have "real_of_int \<lfloor>(- x) * 1000000 + 1 / 2\<rfloor> \<le> real_of_int (- lo * 1000000)"
    by (rule of_int_le_iff[THEN iffD2])
  moreover from b have "real_of_int (- hi * 1000000) \<le> real_of_int \<lfloor>(- x) * 1000000 + 1 / 2\<rfloor>"
    by (rule of_int_le_iff[THEN iffD2])
  ultimately show ?thesis using True by (simp add: toFixed6_def field_simps)
next
  case False
  have a: "lo * 1000000 \<le> \<lfloor>x * 1000000 + 1 / 2\<rfloor>"
    using assms(1) by linarith
  have b: "\<lfloor>x * 1000000 + 1 / 2\<rfloor> \<le> hi * 1000000"
    using assms(2) by linarith
  from a have "real_of_int (lo * 1000000) \<le> real_of_int \<lfloor>x * 1000000 + 1 / 2\<rfloor>"
    by (rule of_int_le_iff[THEN iffD2])
  moreover from b have "real_of_int \<lfloor>x * 1000000 + 1 / 2\<rfloor> \<le> real_of_int (hi * 1000000)"
    by (rule of_int_le_iff[THEN iffD2])
  ultimately show ?thesis using False by (simp add: toFixed6_def field_simps)
qed

lemma toFixed6_bounds_Ints:
  assumes "lo \<in> \<int>" "hi \<in> \<int>" "lo \<le> x" "x \<le> hi"
  shows "lo \<le> toFixed6 x \<and> toFixed6 x \<le> hi"
proof -
  from assms(1) obtain a where a: "lo = real_of_int a" by (rule Ints_cases)
  from assms(2) obtain b where b: "hi = real_of_int b" by (rule Ints_cases)
  from toFixed6_bounds[of a x b] assms(3,4) show ?thesis by (simp add: a b)
qed

lemma COUNTRY_BOUNDARIES_table:
  assumes "COUNTRY_BOUNDARIES cc = Own b"
  shows "fst (lat b) \<in> \<int> \<and> snd (lat b) \<in> \<int> \<and> fst (lat b) \<le> snd (lat b) \<and>
         - 90 \<le> fst (lat b) \<and> snd (lat b) \<le> 90 \<and>
         fst (long b) \<in> \<int> \<and> snd (long b) \<in> \<int> \<and> fst (long b) \<le> snd (long b) \<and>
         - 180 \<le> fst (long b) \<and> snd (long b) \<le> 180"
  using assms
  by (auto simp: COUNTRY_BOUNDARIES_def boundsEntries_def split: if_splits option.splits)

lemma rounding_fixes:
  assumes "roundsLikeDouble fl" "x \<in> \<int>" "\<bar>x\<bar> \<le> 1000"
  shows "fl x = x"
proof -
  from assms(2) obtain z where z: "x = real_of_int z" by (rule Ints_cases)
  with assms(3) have "\<bar>z\<bar> \<le> 1000" by linarith
  then have "\<bar>z\<bar> \<le> 2 ^ 53" by simp
  with assms(1) z show ?thesis by (simp add: roundsLikeDouble_def)
qed

lemma rounding_between:
  assumes fl: "roundsLikeDouble fl"
    and lo: "lo \<in> \<int>" "\<bar>lo\<bar> \<le> 1000" and hi: "hi \<in> \<int>" "\<bar>hi\<bar> \<le> 1000"
    and x: "lo \<le> x" "x \<le> hi"
  shows "lo \<le> fl x \<and> fl x \<le> hi"
proof -
  from fl x have "fl lo \<le> fl x" "fl x \<le> fl hi" by (auto simp: roundsLikeDouble_def)
  with rounding_fixes[OF fl lo] rounding_fixes[OF fl hi] show ?thesis by simp
qed

lemma rounded_affine_toFixed6:
  assumes fl: "roundsLikeDouble fl"
    and lo: "lo \<in> \<int>" "- 180 \<le> lo" and hi: "hi \<in> \<int>" "hi \<le> 180" and le: "lo \<le> hi"
    and r: "0 \<le> r" "r < 1"
  shows "lo \<le> fl (toFixed6 (fl (lo + fl (r * fl (hi - lo))))) \<and>
         fl (toFixed6 (fl (lo + fl (r * fl (hi - lo))))) \<le> hi"
proof -
  have alo: "\<bar>lo\<bar> \<le> 1000" and ahi: "\<bar>hi\<bar> \<le> 1000" using lo hi le by auto
  have d: "hi - lo \<in> \<int>" "\<bar>hi - lo\<bar> \<le> 1000" using lo hi le by auto
  have w: "fl (hi - lo) = hi - lo" by (rule rounding_fixes[OF fl d])
  have z: "(0::real) \<in> \<int>" "\<bar>0::real\<bar> \<le> 1000" by auto
  have p: "0 \<le> r * (hi - lo) \<and> r * (hi - lo) \<le> hi - lo"
  proof
    show "0 \<le> r * (hi - lo)" using r le by simp
    have "r * (hi - lo) \<le> 1 * (hi - lo)" using r le by (intro mult_right_mono) auto
    then show "r * (hi - lo) \<le> hi - lo" by simp
  qed
  have q: "0 \<le> fl (r * (hi - lo)) \<and> fl (r * (hi - lo)) \<le> hi - lo"
    using rounding_between[OF fl z d] p by blast
  then have "lo \<le> lo + fl (r * (hi - lo)) \<and> lo + fl (r * (hi - lo)) \<le> hi" by simp
  then have s: "lo \<le> fl (lo + fl (r * (hi - lo))) \<and> fl (lo + fl (r * (hi - lo))) \<le> hi"
    using rounding_between[OF fl lo(1) alo hi(1) ahi] by blast
  then have t: "lo \<le> toFixed6 (fl (lo + fl (r * (hi - lo)))) \<and>
                toFixed6 (fl (lo + fl (r * (hi - lo)))) \<le> hi"
    using toFixed6_bounds_Ints[OF lo(1) hi(1)] by blast
  then show ?thesis
    unfolding w using rounding_between[OF fl lo(1) alo hi(1) ahi] by blast
qed

lemma synthesized_in_bounds:
  assumes "COUNTRY_BOUNDARIES cc = Own b" "roundsLikeDouble fl"
    "0 \<le> rnd k" "rnd k < 1" "0 \<le> rnd (k + 1)" "rnd (k + 1) < 1"
  shows "fst (lat b) \<le> synthesizedLat fl rnd k b \<and> synthesizedLat fl rnd k b \<le> snd (lat b) \<and>
         fst (long b) \<le> synthesizedLong fl rnd k b \<and> synthesizedLong fl rnd k b \<le> snd (long b)"
proof -
  note t = COUNTRY_BOUNDARIES_table[OF assms(1)]
  have 1: "fst (lat b) \<le> synthesizedLat fl rnd k b \<and> synthesizedLat fl rnd k b \<le> snd (lat b)"
    unfolding synthesizedLat_def
    using rounded_affine_toFixed6[OF assms(2), of "fst (lat b)" "snd (lat b)" "rnd k"] t assms(3,4)
    by auto
  have 2: "fst (long b) \<le> synthesizedLong fl rnd k b \<and> synthesizedLong fl rnd k b \<le> snd (long b)"
    unfolding synthesizedLong_def
    using rounded_affine_toFixed6[OF assms(2), of "fst (long b)" "snd (long b)" "rnd (k + 1)"] t
      assms(5,6)
    by auto
  from 1 2 show ?thesis by blast
qed

lemma assignCoordinates_Cons:
  "assignCoordinates fl rnd k (s # ss) =
     (if throwsTypeError s then Inl (TypeError ''bounds.lat is undefined'')
      else case assignCoordinates fl rnd (k + (if synthesizable s then 2 else 0)) ss of
             Inl e \<Rightarrow> Inl e
           | Inr r \<Rightarrow> Inr (assignCoordinate fl rnd k s # r))"
  by (cases "COUNTRY_BOUNDARIES (countryCode s)")
     (simp_all add: getRandomCoordinateForCountry_def Let_def synthesizedLat_def
        synthesizedLong_def assignCoordinate_def synthesizable_def throwsTypeError_def
        split: sum.splits)

lemma assignCoordinates_throws:
  "list_ex throwsTypeError ss \<Longrightarrow>
   assignCoordinates fl rnd k ss = Inl (TypeError ''bounds.lat is undefined'')"
proof (induction ss arbitrary: k)
  case Nil
  then show ?case by simp
next
  case (Cons s ss)
  show ?case
  proof (cases "throwsTypeError s")
    case True
    then show ?thesis by (simp add: assignCoordinates_Cons del: assignCoordinates.simps)
  next
    case False
    with Cons.prems have "list_ex throwsTypeError ss" by simp
    from Cons.IH[OF this] False show ?thesis
      by (simp add: assignCoordinates_Cons del: assignCoordinates.simps)
  qed
qed

lemma assignCoordinates_returns:
  "\<not> list_ex throwsTypeError ss \<Longrightarrow>
   \<exists>r. assignCoordinates fl rnd k ss = Inr r \<and> length r = length ss \<and>
       (\<forall>i < length ss. r ! i = assignCoordinate fl rnd (k + drawsBefore ss i) (ss ! i))"
proof (induction ss arbitrary: k)
  case Nil
  then show ?case by simp
next
  case (Cons s ss)
  let ?k' = "k + (if synthesizable s then 2 else 0)"
  from Cons.prems have ns: "\<not> throwsTypeError s" and nss: "\<not> list_ex throwsTypeError ss"
    by simp_all
  from Cons.IH[OF nss, of ?k'] obtain r where
    r: "assignCoordinates fl rnd ?k' ss = Inr r" "length r = length ss"
       "\<forall>i < length ss. r ! i = assignCoordinate fl rnd (?k' + drawsBefore ss i) (ss ! i)"
    by blast
  have e: "assignCoordinates fl rnd k (s # ss) = Inr (assignCoordinate fl rnd k s # r)"
    using ns r(1) by (simp add: assignCoordinates_Cons del: assignCoordinates.simps)
  have n: "\<forall>i < length (s # ss).
     (assignCoordinate fl rnd k s # r) ! i =
       assignCoordinate fl rnd (k + drawsBefore (s # ss) i) ((s # ss) ! i)"
  proof (intro allI impI)
    fix i assume i: "i < length (s # ss)"
    show "(assignCoordinate fl rnd k s # r) ! i =
       assignCoordinate fl rnd (k + drawsBefore (s # ss) i) ((s # ss) ! i)"
    proof (cases i)
      case 0
      then show ?thesis by (simp add: drawsBefore_def)
    next
      case (Suc j)
      with i have j: "j < length ss" by simp
      have "drawsBefore (s # ss) (Suc j) = (if synthesizable s then 2 else 0) + drawsBefore ss j"
        by (simp add: drawsBefore_def)
      with r(3) j Suc show ?thesis by (simp add: add.assoc)
    qed
  qed
  from e r(2) n show ?case by (intro exI[of _ "assignCoordinate fl rnd k s # r"]) simp
qed

lemma foldl_countStation:
  "foldl countStation acc xs c =
     (if filter (\<lambda>s. countKey s = c) xs = [] then acc c
      else Some ((case acc c of None \<Rightarrow> 0 | Some m \<Rightarrow> m) + length (filter (\<lambda>s. countKey s = c) xs)))"
  by (induction xs arbitrary: acc) (auto simp: countStation_def countKey_def Let_def)

lemma fewStations_iff:
  "fewStations (countryCounts v) c \<longleftrightarrow> length (filter (\<lambda>s. countKey s = code c) v) < 5"
  by (simp add: fewStations_def countryCounts_def foldl_countStation)

lemma important_code:
  "c \<in> set IMPORTANT_COUNTRIES \<Longrightarrow> code c \<noteq> [] \<and> code c \<noteq> ''unknown''"
  by (auto simp: IMPORTANT_COUNTRIES_def)

lemma countKey_important:
  "c \<in> set IMPORTANT_COUNTRIES \<Longrightarrow> (countKey s = code c) = (countryCode s = code c)"
  using important_code[of c] by (auto simp: countKey_def)

lemma additional_calls:
  "concat (map fst (additionalStationsPromises service v)) =
     map (\<lambda>c. countryQuery (code c) 20) (filter (fewStations (countryCounts v)) IMPORTANT_COUNTRIES)"
  by (simp add: additionalStationsPromises_def getRadioStationsForCountry_eq comp_def)

lemmas assembler_eval =
  primaryQuery_def countryQuery_def serviceOf_def validGeoStations_def
  additionalStationsFetched_def promiseAll_def additionalStationsPromises_def
  getRadioStationsForCountry_eq IMPORTANT_COUNTRIES_def fewStations_def countryCounts_def
  countStation_def lacksCoordinates_def getRandomCoordinateForCountry_def
  COUNTRY_BOUNDARIES_def boundsEntries_def objectPrototypeMembers_def toFixed6_def
  noRounding_def Let_def

lemma truthy_present: "truthy v \<Longrightarrow> v \<noteq> None \<and> v \<noteq> Some NaN \<and> \<not> isNaN v"
  by (cases v rule: truthy.cases) auto

lemma fetched_origin:
  assumes "t \<in> set (additionalStationsFetched service v)"
  shows "\<exists>c\<in>set IMPORTANT_COUNTRIES. \<exists>ys. fewStations (countryCounts v) c \<and>
           service (countryQuery (code c) 20) = Inr ys \<and> t \<in> set ys"
proof -
  from assms obtain c where c: "c \<in> set IMPORTANT_COUNTRIES" "fewStations (countryCounts v) c"
    "t \<in> set (case service (countryQuery (code c) 20) of Inl e \<Rightarrow> [] | Inr stations \<Rightarrow> stations)"
    by (auto simp: additionalStationsFetched_def promiseAll_def additionalStationsPromises_def
      getRadioStationsForCountry_eq)
  then obtain ys where "service (countryQuery (code c) 20) = Inr ys" "t \<in> set ys"
    by (cases "service (countryQuery (code c) 20)") auto
  with c(1,2) show ?thesis by blast
qed

lemma output_cases:
  assumes "snd (getRadioStationsWithGeoData service fl rnd limit) = Inr out"
  shows "out = [] \<or>
         (\<exists>xs r. service (primaryQuery limit) = Inr xs \<and>
            assignCoordinates fl rnd 0 (additionalStationsFetched service (validGeoStations xs)) = Inr r \<and>
            out = mergeStations (validGeoStations xs) r)"
proof (cases "service (primaryQuery limit)")
  case (Inl e)
  with assms assembler_primary_failed[of service limit e fl rnd] show ?thesis by simp
next
  case (Inr xs)
  with assms assembler_primary_ok[of service limit xs fl rnd] show ?thesis
    by (cases "assignCoordinates fl rnd 0 (additionalStationsFetched service (validGeoStations xs))")
       auto
qed

lemma assigned_member:
  assumes "assignCoordinates fl rnd k ss = Inr r" "s \<in> set r"
  shows "\<exists>i < length ss. s = assignCoordinate fl rnd (k + drawsBefore ss i) (ss ! i)"
proof -
  have "\<not> list_ex throwsTypeError ss"
    using assignCoordinates_throws[of ss fl rnd k] assms(1) by auto
  from assignCoordinates_returns[OF this, of fl rnd k] assms(1)
  have l: "length r = length ss"
    and n: "\<forall>i < length ss. r ! i = assignCoordinate fl rnd (k + drawsBefore ss i) (ss ! i)"
    by auto
  from assms(2) obtain i where "i < length r" "s = r ! i" by (auto simp: in_set_conv_nth)
  with l n show ?thesis by auto
qed

lemma assignCoordinate_truthy:
  assumes "truthy (geoLat (assignCoordinate fl rnd k t))" "truthy (geoLong (assignCoordinate fl rnd k t))"
  shows "\<not> lacksCoordinates t \<or> (\<exists>b. COUNTRY_BOUNDARIES (countryCode t) = Own b)"
proof (cases "COUNTRY_BOUNDARIES (countryCode t)")
  case (Own b)
  then show ?thesis by blast
next
  case Undefined
  with assms show ?thesis
    by (auto simp: assignCoordinate_def lacksCoordinates_def dest: truthy_present split: if_splits)
next
  case Inherited
  with assms show ?thesis
    by (auto simp: assignCoordinate_def lacksCoordinates_def dest: truthy_present split: if_splits)
qed

lemma output_truthy:
  assumes "snd (getRadioStationsWithGeoData service fl rnd limit) = Inr out" "s \<in> set out"
  shows "truthy (geoLat s) \<and> truthy (geoLong s)"
  using output_cases[OF assms(1)] assms(2)
  by (auto simp: validGeoStations_def dest!: mergeStations_set)

lemma assigned_valid:
  assumes draws: "\<forall>k. 0 \<le> rnd k \<and> rnd k < 1" and fl: "roundsLikeDouble fl"
    and ok: "(truthy (geoLat t) \<longrightarrow> validLatitude (geoLat t)) \<and> (truthy (geoLong t) \<longrightarrow> validLongitude (geoLong t))"
    and tr: "truthy (geoLat (assignCoordinate fl rnd k t))" "truthy (geoLong (assignCoordinate fl rnd k t))"
  shows "validLatitude (geoLat (assignCoordinate fl rnd k t)) \<and> validLongitude (geoLong (assignCoordinate fl rnd k t))"
proof (cases "lacksCoordinates t")
  case False
  then show ?thesis using ok by (auto simp: assignCoordinate_def lacksCoordinates_def)
next
  case True
  with assignCoordinate_truthy[OF tr] obtain b where b: "COUNTRY_BOUNDARIES (countryCode t) = Own b"
    by blast
  from synthesized_in_bounds[OF b fl, of rnd k] draws COUNTRY_BOUNDARIES_table[OF b]
  show ?thesis using True b
    by (simp add: assignCoordinate_def validLatitude_def validLongitude_def)
qed

text \<open>
  Claim C1, as amended. Every record of the sequence returned by
  \<open>getRadioStationsWithGeoData\<close> has a latitude and a longitude that are present and not
  \<open>NaN\<close>. They are finite and within \<open>[-90,90]\<close> and \<open>[-180,180]\<close> whenever every
  coordinate the directory service returned is (synthesized coordinates always are, for
  draws in \<open>[0,1)\<close> and arithmetic that rounds as doubles do): the assembler applies no
  range or finiteness check of its own to a coordinate the service supplies.
\<close>

theorem C1_amended:
  assumes "snd (getRadioStationsWithGeoData service fl rnd limit) = Inr out" and "s \<in> set out"
  shows "(geoLat s \<noteq> None \<and> geoLat s \<noteq> Some NaN \<and> geoLong s \<noteq> None \<and> geoLong s \<noteq> Some NaN) \<and>
         ((\<forall>k. 0 \<le> rnd k \<and> rnd k < 1) \<and> roundsLikeDouble fl \<and>
          (\<forall>q xs t. service q = Inr xs \<and> t \<in> set xs \<longrightarrow>
             (truthy (geoLat t) \<longrightarrow> validLatitude (geoLat t)) \<and>
             (truthy (geoLong t) \<longrightarrow> validLongitude (geoLong t)))
          \<longrightarrow> validLatitude (geoLat s) \<and> validLongitude (geoLong s))"
proof
  from output_truthy[OF assms] truthy_present
  show "geoLat s \<noteq> None \<and> geoLat s \<noteq> Some NaN \<and> geoLong s \<noteq> None \<and> geoLong s \<noteq> Some NaN"
    by blast
next
  show "(\<forall>k. 0 \<le> rnd k \<and> rnd k < 1) \<and> roundsLikeDouble fl \<and>
          (\<forall>q xs t. service q = Inr xs \<and> t \<in> set xs \<longrightarrow>
             (truthy (geoLat t) \<longrightarrow> validLatitude (geoLat t)) \<and>
             (truthy (geoLong t) \<longrightarrow> validLongitude (geoLong t)))
          \<longrightarrow> validLatitude (geoLat s) \<and> validLongitude (geoLong s)"
  proof
    assume h: "(\<forall>k. 0 \<le> rnd k \<and> rnd k < 1) \<and> roundsLikeDouble fl \<and>
          (\<forall>q xs t. service q = Inr xs \<and> t \<in> set xs \<longrightarrow>
             (truthy (geoLat t) \<longrightarrow> validLatitude (geoLat t)) \<and>
             (truthy (geoLong t) \<longrightarrow> validLongitude (geoLong t)))"
    then have draws: "\<forall>k. 0 \<le> rnd k \<and> rnd k < 1" and fl: "roundsLikeDouble fl"
      and ok: "\<And>q xs t. service q = Inr xs \<Longrightarrow> t \<in> set xs \<Longrightarrow>
             (truthy (geoLat t) \<longrightarrow> validLatitude (geoLat t)) \<and>
             (truthy (geoLong t) \<longrightarrow> validLongitude (geoLong t))" by blast+
    from output_cases[OF assms(1)] assms(2) obtain xs r where
      xs: "service (primaryQuery limit) = Inr xs"
      and r: "assignCoordinates fl rnd 0 (additionalStationsFetched service (validGeoStations xs)) = Inr r"
      and out: "out = mergeStations (validGeoStations xs) r"
      by auto
    let ?f = "additionalStationsFetched service (validGeoStations xs)"
    from assms(2) out mergeStations_set
    consider "s \<in> set (validGeoStations xs)"
      | "s \<in> set r" "truthy (geoLat s)" "truthy (geoLong s)"
      by blast
    then show "validLatitude (geoLat s) \<and> validLongitude (geoLong s)"
    proof cases
      case 1
      then have "s \<in> set xs" "truthy (geoLat s)" "truthy (geoLong s)"
        by (auto simp: validGeoStations_def)
      with ok[OF xs] show ?thesis by blast
    next
      case 2
      from assigned_member[OF r 2(1)] obtain i where i: "i < length ?f"
        and s: "s = assignCoordinate fl rnd (0 + drawsBefore ?f i) (?f ! i)" by blast
      from i have "?f ! i \<in> set ?f" by simp
      from fetched_origin[OF this] obtain c :: important_country and ys where
        "service (countryQuery (code c) 20) = Inr ys" "?f ! i \<in> set ys" by blast
      from ok[OF this] assigned_valid[OF draws fl _ 2(2,3)[unfolded s]] s
      show ?thesis by blast
    qed
  qed
qed

text \<open>
  Claim C1 as stated fails: a primary-query station at latitude \<open>100\<close> and longitude
  \<open>200\<close> passes the filter and is returned.
\<close>

theorem C1_counterexample:
  "snd (getRadioStationsWithGeoData (serviceOf [farStation] noCountry) noRounding half 800) = Inr [farStation]
   \<and> geoLat farStation = Some (Num 100) \<and> \<not> validLatitude (geoLat farStation)
   \<and> geoLong farStation = Some (Num 200) \<and> \<not> validLongitude (geoLong farStation)"
  by (simp add: assembler_primary_ok[of _ _ "[farStation]"] assembler_eval
      farStation_def station0_def noCountry_def validLatitude_def validLongitude_def)

text \<open>
  Claim C2, as amended. If the valid-coordinate records of the primary query have pairwise
  distinct identifiers, then so have the records of the returned sequence: a supplementary
  record is added only when no record already present has its identifier. Identifiers
  repeated within the primary query's own result are not removed.
\<close>

theorem C2_amended:
  assumes "snd (getRadioStationsWithGeoData service fl rnd limit) = Inr out"
    and "\<forall>xs. service (primaryQuery limit) = Inr xs \<longrightarrow> distinct (map stationId (validGeoStations xs))"
  shows "distinct (map stationId out)"
  using output_cases[OF assms(1)] assms(2) by (auto intro: mergeStations_distinct)

text \<open>
  Claim C2 as stated fails: two primary-query records with the same identifier are both
  returned.
\<close>

theorem C2_counterexample:
  "snd (getRadioStationsWithGeoData (serviceOf [dupA, dupB] noCountry) noRounding half 800) = Inr [dupA, dupB]
   \<and> stationId dupA = stationId dupB \<and> dupA \<noteq> dupB"
  by (simp add: assembler_primary_ok[of _ _ "[dupA, dupB]"] assembler_eval
      dupA_def dupB_def station0_def noCountry_def)

text \<open>
  Claim C4 on the code. A primary-query station on the equator (latitude \<open>0\<close>, longitude
  \<open>-78\<close>) has valid finite coordinates, and the filter discards it: the test
  \<open>station.geoLat && ...\<close> reads the number \<open>0\<close> as absent.
\<close>

theorem C4_zero_coordinate_discarded:
  "validGeoStations [equatorStation] = [] \<and>
   snd (getRadioStationsWithGeoData (serviceOf [equatorStation] noCountry) noRounding half 800) = Inr [] \<and>
   geoLat equatorStation = Some (Num 0) \<and> validLatitude (geoLat equatorStation) \<and>
   validLongitude (geoLong equatorStation)"
  by (simp add: assembler_primary_ok[of _ _ "[equatorStation]"] assembler_eval
      equatorStation_def station0_def noCountry_def validLatitude_def validLongitude_def)

lemmas demo_defs =
  demoService_def demoPrimary_def demoByCountry_def demoOutput_def usStation_def gbStation_def
  inBare_def inGeo_def inLower_def jpBare_def station0_def half_def

lemma demo_primary: "demoService (primaryQuery 800) = Inr demoPrimary"
  by (simp add: demoService_def serviceOf_def primaryQuery_def)

lemma demo_valid: "validGeoStations demoPrimary = demoPrimary"
  by (simp add: validGeoStations_def demo_defs)

lemma demo_fetched:
  "additionalStationsFetched demoService (validGeoStations demoPrimary) = [inBare, inGeo, inLower, jpBare]"
  unfolding demo_valid
  by (simp add: assembler_eval demo_defs)

lemma demo_assigned:
  "assignCoordinates noRounding half 0 [inBare, inGeo, inLower, jpBare] =
     Inr [inBare\<lparr>geoLat := Some (Num (43 / 2)), geoLong := Some (Num (165 / 2))\<rparr>,
          inGeo, inLower,
          jpBare\<lparr>geoLat := Some (Num 38), geoLong := Some (Num (275 / 2))\<rparr>]"
  by (simp add: assembler_eval demo_defs)

lemma demo_output: "snd (getRadioStationsWithGeoData demoService noRounding half 800) = Inr demoOutput"
  unfolding assembler_primary_ok[where service = demoService and limit = 800, OF demo_primary] snd_conv
    demo_valid demo_fetched[unfolded demo_valid] demo_assigned
  by (simp add: demo_defs)

lemma demo_stations_ok:
  assumes "t \<in> set (demoPrimary @ [inBare, inGeo, inLower, jpBare])"
  shows "(truthy (geoLat t) \<longrightarrow> validLatitude (geoLat t)) \<and>
         (truthy (geoLong t) \<longrightarrow> validLongitude (geoLong t))"
proof -
  from assms consider "t = usStation" | "\<exists>i. t = gbStation i" | "t = inBare" | "t = inGeo"
    | "t = inLower" | "t = jpBare"
    by (auto simp: demoPrimary_def)
  then show ?thesis
    by cases (auto simp: usStation_def gbStation_def inBare_def inGeo_def inLower_def jpBare_def
        station0_def validLatitude_def validLongitude_def)
qed

lemma demo_service_range:
  "demoService q = Inr xs \<Longrightarrow> set xs \<subseteq> set (demoPrimary @ [inBare, inGeo, inLower, jpBare])"
  by (cases "countryCodeQ q")
     (auto simp: demoService_def serviceOf_def demoByCountry_def split: if_splits)

lemma demo_service_ok:
  "demoService q = Inr xs \<and> t \<in> set xs \<longrightarrow>
     (truthy (geoLat t) \<longrightarrow> validLatitude (geoLat t)) \<and>
     (truthy (geoLong t) \<longrightarrow> validLongitude (geoLong t))"
  using demo_service_range[of q xs] demo_stations_ok[of t] by blast

lemma half_draws: "\<forall>k. 0 \<le> half k \<and> half k < 1"
  by (simp add: half_def)

lemma noRounding_ok: "roundsLikeDouble noRounding"
  by (simp add: roundsLikeDouble_def noRounding_def)

text \<open>
  Witness for C1 (amended): on the sample directory, the record synthesized for the Indian
  station without coordinates is in the output, and its coordinates are in range.
\<close>

theorem C1_amended_witness:
  "snd (getRadioStationsWithGeoData demoService noRounding half 800) = Inr demoOutput \<and>
   inBare\<lparr>geoLat := Some (Num (43 / 2)), geoLong := Some (Num (165 / 2))\<rparr> \<in> set demoOutput \<and>
   (\<forall>k. 0 \<le> half k \<and> half k < 1) \<and> roundsLikeDouble noRounding \<and>
   validLatitude (Some (Num (43 / 2))) \<and> validLongitude (Some (Num (165 / 2)))"
proof -
  have m: "inBare\<lparr>geoLat := Some (Num (43 / 2)), geoLong := Some (Num (165 / 2))\<rparr> \<in> set demoOutput"
    by (simp add: demoOutput_def)
  from C1_amended[OF demo_output m] half_draws noRounding_ok demo_service_ok
  have "validLatitude (geoLat (inBare\<lparr>geoLat := Some (Num (43 / 2)), geoLong := Some (Num (165 / 2))\<rparr>)) \<and>
        validLongitude (geoLong (inBare\<lparr>geoLat := Some (Num (43 / 2)), geoLong := Some (Num (165 / 2))\<rparr>))"
    by blast
  with demo_output m half_draws noRounding_ok show ?thesis by simp
qed

text \<open>
  Witness for C2 (amended): the sample directory's primary records have distinct
  identifiers, and so has the output.
\<close>

theorem C2_amended_witness:
  "snd (getRadioStationsWithGeoData demoService noRounding half 800) = Inr demoOutput \<and>
   distinct (map stationId (validGeoStations demoPrimary)) \<and>
   distinct (map stationId demoOutput)"
proof -
  have p: "distinct (map stationId (validGeoStations demoPrimary))"
    unfolding demo_valid by (simp add: demo_defs)
  have "\<forall>xs. demoService (primaryQuery 800) = Inr xs \<longrightarrow> distinct (map stationId (validGeoStations xs))"
    using p by (simp add: demo_primary)
  from C2_amended[OF demo_output this] demo_output p show ?thesis by simp
qed

lemma truthy_iff: "truthy v \<longleftrightarrow> v \<noteq> None \<and> v \<noteq> Some NaN \<and> v \<noteq> Some (Num 0)"
  by (cases v rule: truthy.cases) auto

lemma validGeoStations_nonzero:
  assumes "\<forall>s\<in>set xs. geoLat s \<noteq> Some (Num 0) \<and> geoLong s \<noteq> Some (Num 0)"
  shows "validGeoStations xs = filter hasValidCoordinates xs"
  unfolding validGeoStations_def
proof (rule filter_cong[OF refl])
  fix s assume "s \<in> set xs"
  with assms have "geoLat s \<noteq> Some (Num 0)" "geoLong s \<noteq> Some (Num 0)" by auto
  then show "(truthy (geoLat s) \<and> truthy (geoLong s) \<and> \<not> isNaN (geoLat s) \<and> \<not> isNaN (geoLong s)) =
             hasValidCoordinates s"
    using truthy_present[of "geoLat s"] truthy_present[of "geoLong s"]
    by (auto simp: truthy_iff hasValidCoordinates_def)
qed

lemma assembler_calls:
  "fst (getRadioStationsWithGeoData service fl rnd limit) =
     (case service (primaryQuery limit) of
        Inl e \<Rightarrow> [primaryQuery limit]
      | Inr xs \<Rightarrow>
          primaryQuery limit #
          map (\<lambda>c. countryQuery (code c) 20)
            (filter (\<lambda>c. length (filter (\<lambda>s. countryCode s = code c) (validGeoStations xs)) < 5)
               IMPORTANT_COUNTRIES))"
proof (cases "service (primaryQuery limit)")
  case (Inl e)
  then show ?thesis by (simp add: assembler_primary_failed[where service = service and limit = limit])
next
  case (Inr xs)
  have few: "filter (fewStations (countryCounts (validGeoStations xs))) IMPORTANT_COUNTRIES =
             filter (\<lambda>c. length (filter (\<lambda>s. countryCode s = code c) (validGeoStations xs)) < 5)
               IMPORTANT_COUNTRIES"
    by (rule filter_cong) (simp_all add: fewStations_iff countKey_important)
  show ?thesis
    by (simp add: Inr assembler_primary_ok[where service = service and limit = limit, OF Inr]
        additional_calls few)
qed

lemma assembler_resolves: "\<exists>out. snd (getRadioStationsWithGeoData service fl rnd limit) = Inr out"
  by (cases "service (primaryQuery limit)")
     (simp_all add: assembler_primary_failed[where service = service and limit = limit]
        assembler_primary_ok[where service = service and limit = limit])

text \<open>
  Claim C5, as amended. When the primary query fails, no supplementary query is issued.
  When it returns, and no returned record has a latitude or longitude equal to \<open>0\<close>, the
  queries issued after it are exactly the country-scoped queries with limit \<open>20\<close> for the
  priority countries whose count of records with valid coordinates (latitude and
  longitude present and not \<open>NaN\<close>) is below \<open>5\<close>, a country without such a record
  counting \<open>0\<close>: a priority country is queried if and only if its count is below \<open>5\<close>. In
  every case a query other than the primary one is a limit-\<open>20\<close> query for a priority
  country.
\<close>

theorem C5_amended:
  "(\<forall>e. service (primaryQuery limit) = Inl e \<longrightarrow>
      fst (getRadioStationsWithGeoData service fl rnd limit) = [primaryQuery limit]) \<and>
   (\<forall>xs. service (primaryQuery limit) = Inr xs \<and>
         (\<forall>s\<in>set xs. geoLat s \<noteq> Some (Num 0) \<and> geoLong s \<noteq> Some (Num 0)) \<longrightarrow>
      (\<forall>c\<in>set IMPORTANT_COUNTRIES.
          countryQuery (code c) 20 \<in> set (fst (getRadioStationsWithGeoData service fl rnd limit)) \<longleftrightarrow>
          length (filter (\<lambda>s. hasValidCoordinates s \<and> countryCode s = code c) xs) < 5) \<and>
      fst (getRadioStationsWithGeoData service fl rnd limit) =
        primaryQuery limit #
        map (\<lambda>c. countryQuery (code c) 20)
          (filter (\<lambda>c. length (filter (\<lambda>s. hasValidCoordinates s \<and> countryCode s = code c) xs) < 5)
             IMPORTANT_COUNTRIES)) \<and>
   (\<forall>q\<in>set (fst (getRadioStationsWithGeoData service fl rnd limit)).
      q = primaryQuery limit \<or> (\<exists>c\<in>set IMPORTANT_COUNTRIES. q = countryQuery (code c) 20))"
proof (intro conjI allI impI)
  fix e assume "service (primaryQuery limit) = Inl e"
  then show "fst (getRadioStationsWithGeoData service fl rnd limit) = [primaryQuery limit]"
    by (simp add: assembler_calls)
next
  fix xs
  assume h: "service (primaryQuery limit) = Inr xs \<and>
         (\<forall>s\<in>set xs. geoLat s \<noteq> Some (Num 0) \<and> geoLong s \<noteq> Some (Num 0))"
  let ?few = "\<lambda>c. length (filter (\<lambda>s. hasValidCoordinates s \<and> countryCode s = code c) xs) < 5"
  have v: "validGeoStations xs = filter hasValidCoordinates xs"
    using h by (intro validGeoStations_nonzero) blast
  have log: "fst (getRadioStationsWithGeoData service fl rnd limit) =
        primaryQuery limit # map (\<lambda>c. countryQuery (code c) 20) (filter ?few IMPORTANT_COUNTRIES)"
    using h by (simp add: assembler_calls v)
  show "fst (getRadioStationsWithGeoData service fl rnd limit) =
        primaryQuery limit # map (\<lambda>c. countryQuery (code c) 20) (filter ?few IMPORTANT_COUNTRIES)"
    by (rule log)
  show "\<forall>c\<in>set IMPORTANT_COUNTRIES.
          countryQuery (code c) 20 \<in> set (fst (getRadioStationsWithGeoData service fl rnd limit)) \<longleftrightarrow>
          ?few c"
    unfolding log by (auto simp: countryQuery_def primaryQuery_def)
next
  show "\<forall>q\<in>set (fst (getRadioStationsWithGeoData service fl rnd limit)).
      q = primaryQuery limit \<or> (\<exists>c\<in>set IMPORTANT_COUNTRIES. q = countryQuery (code c) 20)"
    by (cases "service (primaryQuery limit)") (auto simp: assembler_calls)
qed

text \<open>
  Claim C5 as stated fails: when the primary query fails, no count exists for India, a
  priority country, and no supplementary query for it is issued.
\<close>

theorem C5_counterexample:
  "downService (primaryQuery 800) = Inl (Error ''unavailable'') \<and>
   \<lparr>cname = ''India'', code = ''IN''\<rparr> \<in> set IMPORTANT_COUNTRIES \<and>
   fst (getRadioStationsWithGeoData downService noRounding half 800) = [primaryQuery 800] \<and>
   countryQuery ''IN'' 20 \<notin> set (fst (getRadioStationsWithGeoData downService noRounding half 800))"
proof -
  have d: "downService (primaryQuery 800) = Inl (Error ''unavailable'')"
    by (simp add: downService_def)
  have l: "fst (getRadioStationsWithGeoData downService noRounding half 800) = [primaryQuery 800]"
    by (simp add: assembler_primary_failed[where service = downService and limit = 800, OF d])
  have n: "countryQuery ''IN'' 20 \<notin> set (fst (getRadioStationsWithGeoData downService noRounding half 800))"
    unfolding l by (simp add: countryQuery_def primaryQuery_def)
  have i: "\<lparr>cname = ''India'', code = ''IN''\<rparr> \<in> set IMPORTANT_COUNTRIES"
    by (simp add: IMPORTANT_COUNTRIES_def)
  from d i l n show ?thesis by blast
qed

lemma demo_nonzero: "\<forall>s\<in>set demoPrimary. geoLat s \<noteq> Some (Num 0) \<and> geoLong s \<noteq> Some (Num 0)"
  by (simp add: demoPrimary_def usStation_def gbStation_def station0_def)

text \<open>
  Witness for C5 (amended): the sample directory has one valid US station and five valid
  GB stations, none with a coordinate \<open>0\<close>; every priority country but GB is queried.
\<close>

theorem C5_amended_witness:
  "demoService (primaryQuery 800) = Inr demoPrimary \<and>
   Some (Num 0) \<notin> set (map geoLat demoPrimary) \<and> Some (Num 0) \<notin> set (map geoLong demoPrimary) \<and>
   fst (getRadioStationsWithGeoData demoService noRounding half 800) =
     [primaryQuery 800, countryQuery ''IN'' 20, countryQuery ''US'' 20, countryQuery ''JP'' 20,
      countryQuery ''CN'' 20, countryQuery ''AU'' 20, countryQuery ''BR'' 20, countryQuery ''RU'' 20] \<and>
   countryQuery ''GB'' 20 \<notin> set (fst (getRadioStationsWithGeoData demoService noRounding half 800))"
proof -
  note t = C5_amended[where service = demoService and limit = 800 and rnd = half
      and fl = noRounding, THEN conjunct2, THEN conjunct1, rule_format,
      OF conjI[OF demo_primary demo_nonzero], THEN conjunct2]
  have f: "filter (\<lambda>c. length (filter (\<lambda>s. hasValidCoordinates s \<and> countryCode s = code c) demoPrimary) < 5)
             IMPORTANT_COUNTRIES =
     [\<lparr>cname = ''India'', code = ''IN''\<rparr>, \<lparr>cname = ''United States'', code = ''US''\<rparr>,
      \<lparr>cname = ''Japan'', code = ''JP''\<rparr>, \<lparr>cname = ''China'', code = ''CN''\<rparr>,
      \<lparr>cname = ''Australia'', code = ''AU''\<rparr>, \<lparr>cname = ''Brazil'', code = ''BR''\<rparr>,
      \<lparr>cname = ''Russia'', code = ''RU''\<rparr>]"
    by (simp add: IMPORTANT_COUNTRIES_def hasValidCoordinates_def demo_defs)
  have l: "fst (getRadioStationsWithGeoData demoService noRounding half 800) =
     [primaryQuery 800, countryQuery ''IN'' 20, countryQuery ''US'' 20, countryQuery ''JP'' 20,
      countryQuery ''CN'' 20, countryQuery ''AU'' 20, countryQuery ''BR'' 20, countryQuery ''RU'' 20]"
    unfolding t f by simp
  have "countryQuery ''GB'' 20 \<notin> set (fst (getRadioStationsWithGeoData demoService noRounding half 800))"
    unfolding l by (simp add: countryQuery_def primaryQuery_def)
  moreover have "Some (Num 0) \<notin> set (map geoLat demoPrimary) \<and> Some (Num 0) \<notin> set (map geoLong demoPrimary)"
    using demo_nonzero by auto
  ultimately show ?thesis using l demo_primary by blast
qed

lemma zero_coordinate_not_counted:
  "length (filter (\<lambda>s. hasValidCoordinates s \<and> countryCode s = ''JP'') jpFive) = 5 \<and>
   length (filter (\<lambda>s. countryCode s = ''JP'') (validGeoStations jpFive)) = 4 \<and>
   countryQuery ''JP'' 20 \<in> set (fst (getRadioStationsWithGeoData (serviceOf jpFive noCountry) noRounding half 800))"
proof -
  have p: "serviceOf jpFive noCountry (primaryQuery 800) = Inr jpFive"
    by (simp add: serviceOf_def primaryQuery_def)
  have v: "validGeoStations jpFive =
     [jpStation ''jp1'' 35, jpStation ''jp2'' 36, jpStation ''jp3'' 37, jpStation ''jp4'' 38]"
    by (simp add: validGeoStations_def jpFive_def jpStation_def station0_def)
  have a: "length (filter (\<lambda>s. hasValidCoordinates s \<and> countryCode s = ''JP'') jpFive) = 5"
    by (simp add: jpFive_def jpStation_def station0_def hasValidCoordinates_def)
  have b: "length (filter (\<lambda>s. countryCode s = ''JP'') (validGeoStations jpFive)) = 4"
    unfolding v by (simp add: jpStation_def station0_def)
  have c: "countryQuery ''JP'' 20 \<in> set (fst (getRadioStationsWithGeoData (serviceOf jpFive noCountry) noRounding half 800))"
    by (simp add: assembler_calls p v IMPORTANT_COUNTRIES_def jpStation_def station0_def)
  from a b c show ?thesis by blast
qed




section \<open>Properties of the audio player\<close>

lemma releaseSound_released:
  "sessionInv st \<Longrightarrow> released (releaseSound (st\<lparr>station := s\<rparr>))"
  by (auto simp: sessionInv_def released_def releaseSound_def unload_def nth_list_update
      split: option.splits)

lemma releaseSound_frame:
  "station (releaseSound st) = station st \<and> volume (releaseSound st) = volume st \<and>
   mounted (releaseSound st) = mounted st \<and> length (howls (releaseSound st)) = length (howls st) \<and>
   isPlaying (releaseSound st) = isPlaying st \<and> isLoading (releaseSound st) = isLoading st \<and>
   error (releaseSound st) = error st"
  by (simp add: releaseSound_def unload_def split: option.splits)

lemma releaseSound_id: "released st \<Longrightarrow> releaseSound st = st"
  by (simp add: released_def releaseSound_def)

lemma stationEffect_released:
  assumes "released st"
  shows "stationEffect st =
     (case station st of
        None \<Rightarrow> st\<lparr>error := None, isPlaying := False\<rparr>
      | Some s \<Rightarrow>
          if url s \<noteq> [] then
            st\<lparr>error := None, isPlaying := False, isLoading := True,
               soundRef := Some (length (howls st)),
               howls := howls st @ [(newHowl (url s) (volume st))\<lparr>playingH := True\<rparr>]\<rparr>
          else st\<lparr>error := None, isPlaying := False\<rparr>)"
  by (simp add: stationEffect_def releaseSound_id[OF assms] Let_def play_def split: option.splits)

lemma stationEffect_inv: "released st \<Longrightarrow> sessionInv (stationEffect st)"
  by (auto simp: stationEffect_released sessionInv_def released_def newHowl_def nth_append
      split: option.splits)

lemma setStation_inv: "sessionInv st \<Longrightarrow> sessionInv (setStation s st)"
proof (cases "urlDep s = urlDep (station st)")
  case True
  assume inv: "sessionInv st"
  show ?thesis
  proof (cases "soundRef st")
    case None
    with inv True show ?thesis by (auto simp: setStation_def sessionInv_def)
  next
    case (Some h)
    with inv obtain a where a: "station st = Some a" "url a \<noteq> []" "src (howls st ! h) = [url a]"
      by (auto simp: sessionInv_def)
    with True obtain b where b: "s = Some b" "url b = url a"
      by (cases s) (auto simp: urlDep_def)
    with inv a Some True show ?thesis by (auto simp: setStation_def sessionInv_def)
  qed
next
  case False
  assume "sessionInv st"
  with False show ?thesis
    by (simp add: setStation_def stationCleanup_def stationEffect_inv releaseSound_released)
qed

lemma handleVolumeChange_inv: "sessionInv st \<Longrightarrow> sessionInv (handleVolumeChange v st)"
  by (auto simp: handleVolumeChange_def volumeEffect_def setVolumeH_def sessionInv_def
      nth_list_update split: option.splits)

lemma togglePlayPause_inv: "sessionInv st \<Longrightarrow> sessionInv (togglePlayPause st)"
  by (auto simp: togglePlayPause_def play_def pause_def sessionInv_def nth_list_update
      split: option.splits)

lemma howlCallback_inv: "sessionInv st \<Longrightarrow> sessionInv (howlCallback e st)"
  by (cases e) (auto simp: sessionInv_def)

lemma unmount_inv: "sessionInv st \<Longrightarrow> sessionInv (unmount st)"
  by (auto simp: unmount_def stationCleanup_def sessionInv_def releaseSound_def unload_def
      nth_list_update split: option.splits)

lemma step_inv: "sessionInv st \<Longrightarrow> sessionInv (step st ev)"
  by (cases ev)
     (simp_all add: step_def setStation_inv handleVolumeChange_inv togglePlayPause_inv
        howlCallback_inv unmount_inv)

lemma run_inv: "sessionInv st \<Longrightarrow> sessionInv (run st es)"
  unfolding run_def by (induction es arbitrary: st) (simp_all add: step_inv)

lemma mount_inv: "sessionInv (mount s)"
proof -
  have r: "released (initialPlayer s)" by (simp add: released_def initialPlayer_def)
  have "sessionInv (stationEffect (initialPlayer s))" by (rule stationEffect_inv[OF r])
  then show ?thesis
    by (auto simp: mount_def volumeEffect_def setVolumeH_def sessionInv_def nth_list_update
        split: option.splits)
qed

lemma reachable_inv: "sessionInv (run (mount s) es)"
  by (rule run_inv[OF mount_inv])

lemma filter_upt_eq: "h < n \<Longrightarrow> filter (\<lambda>x. x = h) [0..<n] = [h]"
proof (induction n)
  case 0
  then show ?case by simp
next
  case (Suc n)
  show ?case
  proof (cases "h < n")
    case True
    with Suc.IH have "filter (\<lambda>x. x = h) [0..<n] = [h]" by simp
    with True show ?thesis by simp
  next
    case False
    with Suc.prems have "h = n" by simp
    then have "filter (\<lambda>x. x = h) [0..<n] = []" by (auto simp: filter_empty_conv)
    with \<open>h = n\<close> show ?thesis by simp
  qed
qed

lemma liveHowls_inv:
  assumes "sessionInv st"
  shows "liveHowls st = (case soundRef st of None \<Rightarrow> [] | Some h \<Rightarrow> [h])"
proof (cases "soundRef st")
  case None
  with assms have "\<forall>h<length (howls st). unloadedH (howls st ! h)"
    by (auto simp: sessionInv_def)
  then show ?thesis using None by (auto simp: liveHowls_def filter_empty_conv)
next
  case (Some h)
  with assms have h: "h < length (howls st)" by (simp add: sessionInv_def)
  have "filter (\<lambda>x. \<not> unloadedH (howls st ! x)) [0..<length (howls st)] =
        filter (\<lambda>x. x = h) [0..<length (howls st)]"
    using assms Some by (intro filter_cong) (auto simp: sessionInv_def)
  with filter_upt_eq[OF h] Some show ?thesis by (simp add: liveHowls_def)
qed

lemma liveHowls_released: "released st \<Longrightarrow> liveHowls st = []"
  by (auto simp: liveHowls_def released_def filter_empty_conv)

lemma setStation_changed:
  assumes inv: "sessionInv st" and dep: "urlDep s \<noteq> urlDep (station st)"
  defines "st1 \<equiv> releaseSound (st\<lparr>station := s\<rparr>)"
  shows "setStation s st = stationEffect st1"
    and "released st1"
    and "station st1 = s" and "volume st1 = volume st" and "mounted st1 = mounted st"
    and "length (howls st1) = length (howls st)"
    and "\<forall>h < length (howls st). unloadedH (howls st1 ! h)"
proof -
  show "setStation s st = stationEffect st1"
    using dep by (simp add: setStation_def stationCleanup_def st1_def)
  show r: "released st1" unfolding st1_def by (rule releaseSound_released[OF inv])
  show "station st1 = s" "volume st1 = volume st" "mounted st1 = mounted st"
    "length (howls st1) = length (howls st)"
    using releaseSound_frame[of "st\<lparr>station := s\<rparr>"] by (simp_all add: st1_def)
  then show "\<forall>h < length (howls st). unloadedH (howls st1 ! h)"
    using r by (simp add: released_def)
qed

lemma setStation_new_session:
  assumes inv: "sessionInv st" and dep: "urlDep (Some b) \<noteq> urlDep (station st)" and u: "url b \<noteq> []"
  shows "soundRef (setStation (Some b) st) = Some (length (howls st))"
    and "length (howls (setStation (Some b) st)) = Suc (length (howls st))"
    and "howls (setStation (Some b) st) ! length (howls st) = (newHowl (url b) (volume st))\<lparr>playingH := True\<rparr>"
    and "\<forall>h < length (howls st). unloadedH (howls (setStation (Some b) st) ! h)"
    and "isPlaying (setStation (Some b) st) = False"
    and "isLoading (setStation (Some b) st) = True"
    and "error (setStation (Some b) st) = None"
    and "volume (setStation (Some b) st) = volume st"
    and "station (setStation (Some b) st) = Some b"
    and "mounted (setStation (Some b) st) = mounted st"
  using setStation_changed[OF inv dep] u
  by (simp_all add: stationEffect_released nth_append)

lemma setStation_no_session:
  assumes inv: "sessionInv st" and dep: "urlDep s \<noteq> urlDep (station st)"
    and u: "s = None \<or> (\<exists>b. s = Some b \<and> url b = [])"
  shows "soundRef (setStation s st) = None"
    and "length (howls (setStation s st)) = length (howls st)"
    and "\<forall>h < length (howls st). unloadedH (howls (setStation s st) ! h)"
    and "station (setStation s st) = s"
  using setStation_changed[OF inv dep] u
  by (auto simp: stationEffect_released released_def)

lemma setStation_station: "station (setStation s st) = s"
  by (simp add: setStation_def stationEffect_def stationCleanup_def Let_def releaseSound_def
      play_def split: option.splits)

lemma step_keeps_volume: "keepsVolume ev \<Longrightarrow> volume (step st ev) = volume st"
proof (cases ev)
  case (StationChanged s)
  then show ?thesis
    by (simp add: step_def setStation_def stationEffect_def stationCleanup_def Let_def releaseSound_def
        play_def split: option.splits)
next
  case (VolumeChanged v)
  assume "keepsVolume ev"
  with VolumeChanged show ?thesis by (simp add: keepsVolume_def)
next
  case TogglePlayPause
  then show ?thesis by (simp add: step_def togglePlayPause_def split: option.splits)
next
  case (HowlEvent h e)
  then show ?thesis by (cases e) (simp_all add: step_def)
next
  case Unmount
  then show ?thesis
    by (simp add: step_def unmount_def stationCleanup_def releaseSound_def split: option.splits)
qed

lemma run_keeps_volume: "list_all keepsVolume es \<Longrightarrow> volume (run st es) = volume st"
  unfolding run_def
  by (induction es arbitrary: st) (simp_all add: step_keeps_volume)

lemma handleVolumeChange_sets:
  assumes "sessionInv st"
  shows "volume (handleVolumeChange v st) = v"
    and "soundRef (handleVolumeChange v st) = soundRef st"
    and "soundRef st = Some h \<Longrightarrow> volumeH (howls (handleVolumeChange v st) ! h) = v"
  using assms
  by (auto simp: handleVolumeChange_def volumeEffect_def setVolumeH_def sessionInv_def
      split: option.splits)

text \<open>
  Claim C3, as amended. In every state a mounted player can reach, at most one engine
  handle is live. When the selection changes to a station \<open>B\<close> (or to none) whose stream
  URL differs from the current selection's, the step is the cleanup followed by the effect
  body: after the cleanup no handle is live, so the previous handle is released before a
  new one is created; afterwards every earlier handle is unloaded and the only live
  handle, if \<open>B\<close> has a stream URL, is a fresh one playing that URL. After any change of
  selection the reported station is the new one. Unmounting releases the handle as well.
  (A change to a different station with the same stream URL keeps the handle.)
\<close>

theorem C3_session_exclusivity:
  assumes "st = run (mount s0) es" and "mounted st"
  shows "length (liveHowls st) \<le> 1 \<and>
         (\<forall>B. urlDep B \<noteq> urlDep (station st) \<longrightarrow>
            step st (StationChanged B) = stationEffect (stationCleanup (st\<lparr>station := B\<rparr>)) \<and>
            liveHowls (stationCleanup (st\<lparr>station := B\<rparr>)) = [] \<and>
            (\<forall>h < length (howls st). unloadedH (howls (step st (StationChanged B)) ! h)) \<and>
            liveHowls (step st (StationChanged B)) =
              (case B of None \<Rightarrow> [] | Some b \<Rightarrow> if url b \<noteq> [] then [length (howls st)] else []) \<and>
            (\<forall>b. B = Some b \<and> url b \<noteq> [] \<longrightarrow>
               soundRef (step st (StationChanged B)) = Some (length (howls st)) \<and>
               src (howls (step st (StationChanged B)) ! length (howls st)) = [url b])) \<and>
         (\<forall>B. station (step st (StationChanged B)) = B) \<and>
         liveHowls (step st Unmount) = [] \<and>
         (\<forall>h < length (howls st). unloadedH (howls (step st Unmount) ! h))"
proof -
  have inv: "sessionInv st" unfolding assms(1) by (rule reachable_inv)
  have m: "mounted st" by fact
  have one: "length (liveHowls st) \<le> 1"
    by (simp add: liveHowls_inv[OF inv] split: option.splits)
  have change: "\<forall>B. urlDep B \<noteq> urlDep (station st) \<longrightarrow>
            step st (StationChanged B) = stationEffect (stationCleanup (st\<lparr>station := B\<rparr>)) \<and>
            liveHowls (stationCleanup (st\<lparr>station := B\<rparr>)) = [] \<and>
            (\<forall>h < length (howls st). unloadedH (howls (step st (StationChanged B)) ! h)) \<and>
            liveHowls (step st (StationChanged B)) =
              (case B of None \<Rightarrow> [] | Some b \<Rightarrow> if url b \<noteq> [] then [length (howls st)] else []) \<and>
            (\<forall>b. B = Some b \<and> url b \<noteq> [] \<longrightarrow>
               soundRef (step st (StationChanged B)) = Some (length (howls st)) \<and>
               src (howls (step st (StationChanged B)) ! length (howls st)) = [url b])"
  proof (intro allI impI)
    fix B assume dep: "urlDep B \<noteq> urlDep (station st)"
    have s: "step st (StationChanged B) = setStation B st" using m by (simp add: step_def)
    have inv': "sessionInv (setStation B st)" by (rule setStation_inv[OF inv])
    have 1: "step st (StationChanged B) = stationEffect (stationCleanup (st\<lparr>station := B\<rparr>))"
      using dep m by (simp add: step_def setStation_def)
    have 2: "liveHowls (stationCleanup (st\<lparr>station := B\<rparr>)) = []"
      unfolding stationCleanup_def
      by (rule liveHowls_released[OF releaseSound_released[OF inv]])
    have 3: "\<forall>h < length (howls st). unloadedH (howls (step st (StationChanged B)) ! h)"
    proof (cases "\<exists>b. B = Some b \<and> url b \<noteq> []")
      case True
      then obtain b where b: "B = Some b" "url b \<noteq> []" by blast
      from setStation_new_session(4)[OF inv dep[unfolded b(1)] b(2)] show ?thesis
        using s b(1) by simp
    next
      case False
      then have "B = None \<or> (\<exists>b. B = Some b \<and> url b = [])" by (cases B) auto
      from setStation_no_session(3)[OF inv dep this] show ?thesis using s by simp
    qed
    have 4: "liveHowls (step st (StationChanged B)) =
              (case B of None \<Rightarrow> [] | Some b \<Rightarrow> if url b \<noteq> [] then [length (howls st)] else [])"
    proof (cases "\<exists>b. B = Some b \<and> url b \<noteq> []")
      case True
      then obtain b where b: "B = Some b" "url b \<noteq> []" by blast
      from setStation_new_session(1)[OF inv dep[unfolded b(1)] b(2)] liveHowls_inv[OF inv'] b
      show ?thesis using s by simp
    next
      case False
      then have n: "B = None \<or> (\<exists>b. B = Some b \<and> url b = [])" by (cases B) auto
      from setStation_no_session(1)[OF inv dep n] liveHowls_inv[OF inv'] n
      show ?thesis using s by auto
    qed
    have 5: "\<forall>b. B = Some b \<and> url b \<noteq> [] \<longrightarrow>
               soundRef (step st (StationChanged B)) = Some (length (howls st)) \<and>
               src (howls (step st (StationChanged B)) ! length (howls st)) = [url b]"
    proof (intro allI impI)
      fix b assume b: "B = Some b \<and> url b \<noteq> []"
      then have dep': "urlDep (Some b) \<noteq> urlDep (station st)" using dep by simp
      from setStation_new_session(1,3)[OF inv dep'] b
      show "soundRef (step st (StationChanged B)) = Some (length (howls st)) \<and>
               src (howls (step st (StationChanged B)) ! length (howls st)) = [url b]"
        using s by (simp add: newHowl_def)
    qed
    from 1 2 3 4 5
    show "step st (StationChanged B) = stationEffect (stationCleanup (st\<lparr>station := B\<rparr>)) \<and>
            liveHowls (stationCleanup (st\<lparr>station := B\<rparr>)) = [] \<and>
            (\<forall>h < length (howls st). unloadedH (howls (step st (StationChanged B)) ! h)) \<and>
            liveHowls (step st (StationChanged B)) =
              (case B of None \<Rightarrow> [] | Some b \<Rightarrow> if url b \<noteq> [] then [length (howls st)] else []) \<and>
            (\<forall>b. B = Some b \<and> url b \<noteq> [] \<longrightarrow>
               soundRef (step st (StationChanged B)) = Some (length (howls st)) \<and>
               src (howls (step st (StationChanged B)) ! length (howls st)) = [url b])"
      by blast
  qed
  have reported: "\<forall>B. station (step st (StationChanged B)) = B"
    using m by (simp add: step_def setStation_station)
  have um: "step st Unmount = (releaseSound st)\<lparr>mounted := False\<rparr>"
    using m by (simp add: step_def unmount_def stationCleanup_def)
  have r: "released (releaseSound st)"
    using releaseSound_released[OF inv, of "station st"] by simp
  have u1: "liveHowls (step st Unmount) = []"
    using liveHowls_released[OF r] unfolding um by (simp add: liveHowls_def)
  have u2: "\<forall>h < length (howls st). unloadedH (howls (step st Unmount) ! h)"
    using r releaseSound_frame[of st] unfolding um by (simp add: released_def)
  from one change reported u1 u2 show ?thesis by blast
qed

text \<open>
  Claim C8, as amended. Callbacks carry no session tag: a callback updates the visible
  state in the same way whichever handle delivers it. What the player guarantees is that
  every handle but the current one has been unloaded: in every reachable state a live
  handle is the one \<open>soundRef\<close> holds and plays the selected station's URL, and right after
  a station \<open>B\<close> with another stream URL is selected, the state is that of a fresh session
  (not playing, loading, no error), its handle is the only live one and all earlier
  handles are unloaded. So the state reflects only \<open>B\<close>'s session as long as the engine
  delivers no callback for an unloaded handle.
\<close>

theorem C8_live_howl_is_current:
  assumes "st = run (mount s0) es"
  shows "(\<forall>h\<in>set (liveHowls st).
            soundRef st = Some h \<and> (\<exists>s. station st = Some s \<and> src (howls st ! h) = [url s])) \<and>
         (\<forall>B. mounted st \<and> urlDep (Some B) \<noteq> urlDep (station st) \<and> url B \<noteq> [] \<longrightarrow>
            isPlaying (step st (StationChanged (Some B))) = False \<and>
            isLoading (step st (StationChanged (Some B))) = True \<and>
            error (step st (StationChanged (Some B))) = None \<and>
            liveHowls (step st (StationChanged (Some B))) = [length (howls st)] \<and>
            (\<forall>h < length (howls st). unloadedH (howls (step st (StationChanged (Some B))) ! h))) \<and>
         (\<forall>h h' e. h < length (howls st) \<and> h' < length (howls st) \<longrightarrow>
            step st (HowlEvent h e) = step st (HowlEvent h' e))"
proof -
  have inv: "sessionInv st" unfolding assms(1) by (rule reachable_inv)
  have a: "\<forall>h\<in>set (liveHowls st).
            soundRef st = Some h \<and> (\<exists>s. station st = Some s \<and> src (howls st ! h) = [url s])"
  proof
    fix h assume "h \<in> set (liveHowls st)"
    then have "soundRef st = Some h"
      by (auto simp: liveHowls_inv[OF inv] split: option.splits)
    with inv show "soundRef st = Some h \<and> (\<exists>s. station st = Some s \<and> src (howls st ! h) = [url s])"
      by (auto simp: sessionInv_def)
  qed
  have b: "\<forall>B. mounted st \<and> urlDep (Some B) \<noteq> urlDep (station st) \<and> url B \<noteq> [] \<longrightarrow>
            isPlaying (step st (StationChanged (Some B))) = False \<and>
            isLoading (step st (StationChanged (Some B))) = True \<and>
            error (step st (StationChanged (Some B))) = None \<and>
            liveHowls (step st (StationChanged (Some B))) = [length (howls st)] \<and>
            (\<forall>h < length (howls st). unloadedH (howls (step st (StationChanged (Some B))) ! h))"
  proof (intro allI impI)
    fix B assume h: "mounted st \<and> urlDep (Some B) \<noteq> urlDep (station st) \<and> url B \<noteq> []"
    then have s: "step st (StationChanged (Some B)) = setStation (Some B) st" by (simp add: step_def)
    from h have dep: "urlDep (Some B) \<noteq> urlDep (station st)" and u: "url B \<noteq> []" by blast+
    have inv': "sessionInv (setStation (Some B) st)" by (rule setStation_inv[OF inv])
    from setStation_new_session(1,4,5,6,7)[OF inv dep u] liveHowls_inv[OF inv']
    show "isPlaying (step st (StationChanged (Some B))) = False \<and>
            isLoading (step st (StationChanged (Some B))) = True \<and>
            error (step st (StationChanged (Some B))) = None \<and>
            liveHowls (step st (StationChanged (Some B))) = [length (howls st)] \<and>
            (\<forall>h < length (howls st). unloadedH (howls (step st (StationChanged (Some B))) ! h))"
      unfolding s by simp
  qed
  have c: "\<forall>h h' e. h < length (howls st) \<and> h' < length (howls st) \<longrightarrow>
            step st (HowlEvent h e) = step st (HowlEvent h' e)"
    by (simp add: step_def)
  from a b c show ?thesis by blast
qed

text \<open>
  Claim C9. In every state a mounted player can reach (whatever its loading flag and
  error), setting the volume to \<open>v\<close> makes \<open>v\<close> the component's volume and, when a session
  exists, the volume of its handle. After any further events that do not set the volume,
  a switch to a station with another stream URL creates the new handle with volume \<open>v\<close>.
\<close>

theorem C9_volume_applied_and_retained:
  assumes "st = run (mount s0) es" and "mounted st"
  shows "volume (step st (VolumeChanged v)) = v \<and>
         (\<forall>h. soundRef st = Some h \<longrightarrow>
            soundRef (step st (VolumeChanged v)) = Some h \<and>
            volumeH (howls (step st (VolumeChanged v)) ! h) = v) \<and>
         (\<forall>es' B. list_all keepsVolume es' \<and>
                   mounted (run (step st (VolumeChanged v)) es') \<and>
                   urlDep (Some B) \<noteq> urlDep (station (run (step st (VolumeChanged v)) es')) \<and>
                   url B \<noteq> [] \<longrightarrow>
            (\<exists>h'. soundRef (step (run (step st (VolumeChanged v)) es') (StationChanged (Some B))) = Some h' \<and>
                   h' = length (howls (run (step st (VolumeChanged v)) es')) \<and>
                   howls (step (run (step st (VolumeChanged v)) es') (StationChanged (Some B))) ! h' =
                     \<lparr>src = [url B], html5 = True, format = [''mp3'', ''aac''], volumeH = v,
                        playingH = True, unloadedH = False\<rparr>))"
proof -
  have inv: "sessionInv st" unfolding assms(1) by (rule reachable_inv)
  have s: "step st (VolumeChanged v) = handleVolumeChange v st" using assms(2) by (simp add: step_def)
  have a: "volume (step st (VolumeChanged v)) = v"
    unfolding s by (rule handleVolumeChange_sets(1)[OF inv])
  have b: "\<forall>h. soundRef st = Some h \<longrightarrow>
            soundRef (step st (VolumeChanged v)) = Some h \<and>
            volumeH (howls (step st (VolumeChanged v)) ! h) = v"
    unfolding s using handleVolumeChange_sets(2,3)[OF inv] by simp
  have c: "\<forall>es' B. list_all keepsVolume es' \<and>
                   mounted (run (step st (VolumeChanged v)) es') \<and>
                   urlDep (Some B) \<noteq> urlDep (station (run (step st (VolumeChanged v)) es')) \<and>
                   url B \<noteq> [] \<longrightarrow>
            (\<exists>h'. soundRef (step (run (step st (VolumeChanged v)) es') (StationChanged (Some B))) = Some h' \<and>
                   h' = length (howls (run (step st (VolumeChanged v)) es')) \<and>
                   howls (step (run (step st (VolumeChanged v)) es') (StationChanged (Some B))) ! h' =
                     \<lparr>src = [url B], html5 = True, format = [''mp3'', ''aac''], volumeH = v,
                        playingH = True, unloadedH = False\<rparr>)"
  proof (intro allI impI)
    fix es' B
    let ?st1 = "run (step st (VolumeChanged v)) es'"
    assume h: "list_all keepsVolume es' \<and> mounted ?st1 \<and>
               urlDep (Some B) \<noteq> urlDep (station ?st1) \<and> url B \<noteq> []"
    have inv1: "sessionInv ?st1" by (intro run_inv step_inv inv)
    have vol: "volume ?st1 = v" using h run_keeps_volume[of es' "step st (VolumeChanged v)"] a by simp
    have s1: "step ?st1 (StationChanged (Some B)) = setStation (Some B) ?st1" using h by (simp add: step_def)
    from h have dep: "urlDep (Some B) \<noteq> urlDep (station ?st1)" and u: "url B \<noteq> []" by blast+
    from setStation_new_session(1,3)[OF inv1 dep u] vol
    show "\<exists>h'. soundRef (step ?st1 (StationChanged (Some B))) = Some h' \<and>
                   h' = length (howls ?st1) \<and>
                   howls (step ?st1 (StationChanged (Some B))) ! h' =
                     \<lparr>src = [url B], html5 = True, format = [''mp3'', ''aac''], volumeH = v,
                        playingH = True, unloadedH = False\<rparr>"
      unfolding s1 by (simp add: newHowl_def)
  qed
  from a b c show ?thesis by blast
qed

text \<open>
  Claim C10. When the newly selected station has the same stream URL as the previously
  selected one, the step changes the reported station and nothing else: the handle, the
  engine's handles, the playback state, the loading flag and the error stay as they are.
\<close>

theorem C10_same_url_keeps_session:
  assumes "mounted st" and "station st = Some A" and "url B = url A"
  shows "step st (StationChanged (Some B)) = st\<lparr>station := Some B\<rparr> \<and>
         soundRef (step st (StationChanged (Some B))) = soundRef st \<and>
         howls (step st (StationChanged (Some B))) = howls st \<and>
         isPlaying (step st (StationChanged (Some B))) = isPlaying st \<and>
         isLoading (step st (StationChanged (Some B))) = isLoading st \<and>
         error (step st (StationChanged (Some B))) = error st"
  using assms by (simp add: step_def setStation_def urlDep_def)

lemma url_samples:
  "url stationA = ''http://stream.example/one''" "url stationB = ''http://stream.example/one''"
  "url stationC = ''http://stream.example/two''"
  by (simp_all add: stationA_def stationB_def stationC_def station0_def)

lemma mount_A: "mount (Some stationA) = playerA"
  by (simp add: mount_def initialPlayer_def stationEffect_def releaseSound_def volumeEffect_def
      newHowl_def play_def setVolumeH_def Let_def url_samples playerA_def howlOne_def)

lemma playerA_B: "step playerA (StationChanged (Some stationB)) = playerA\<lparr>station := Some stationB\<rparr>"
  by (simp add: step_def playerA_def setStation_def urlDep_def url_samples)

lemma playerA_C: "step playerA (StationChanged (Some stationC)) = playerAC"
  by (simp add: step_def playerA_def playerAC_def setStation_def urlDep_def url_samples stationCleanup_def
      stationEffect_def releaseSound_def unload_def newHowl_def play_def Let_def howlOne_def
      howlTwo_def)

text \<open>
  Claim C3 as stated fails: stations \<open>A\<close> and \<open>B\<close> are different stations with the same
  stream URL; after the selection changes from \<open>A\<close> to \<open>B\<close> the handle created for \<open>A\<close>
  is still the only handle and has not been unloaded.
\<close>

theorem C3_counterexample:
  "stationId stationA \<noteq> stationId stationB \<and>
   soundRef (mount (Some stationA)) = Some 0 \<and>
   station (step (mount (Some stationA)) (StationChanged (Some stationB))) = Some stationB \<and>
   length (howls (step (mount (Some stationA)) (StationChanged (Some stationB)))) = 1 \<and>
   src (howls (step (mount (Some stationA)) (StationChanged (Some stationB))) ! 0) = [url stationA] \<and>
   \<not> unloadedH (howls (step (mount (Some stationA)) (StationChanged (Some stationB))) ! 0)"
  unfolding mount_A playerA_B
  by (simp add: playerA_def howlOne_def url_samples stationA_def stationB_def station0_def)

text \<open>
  Witness for C3 (amended): mounted with \<open>A\<close>, then \<open>C\<close> is selected; the handle of \<open>A\<close>
  is unloaded and the new handle is the only live one.
\<close>

theorem C3_session_exclusivity_witness:
  "mounted (run (mount (Some stationA)) []) \<and>
   urlDep (Some stationC) \<noteq> urlDep (station (run (mount (Some stationA)) [])) \<and>
   liveHowls (run (mount (Some stationA)) []) = [0] \<and>
   liveHowls (step (run (mount (Some stationA)) []) (StationChanged (Some stationC))) = [1] \<and>
   unloadedH (howls (step (run (mount (Some stationA)) []) (StationChanged (Some stationC))) ! 0) \<and>
   station (step (run (mount (Some stationA)) []) (StationChanged (Some stationC))) = Some stationC"
proof -
  have r: "run (mount (Some stationA)) [] = playerA" by (simp add: run_def mount_A)
  have m: "mounted (run (mount (Some stationA)) [])" by (simp add: r playerA_def)
  have d: "urlDep (Some stationC) \<noteq> urlDep (station (run (mount (Some stationA)) []))"
    by (simp add: r playerA_def urlDep_def url_samples)
  have l: "liveHowls (run (mount (Some stationA)) []) = [0]"
    by (simp add: r playerA_def liveHowls_def howlOne_def)
  have n: "length (howls (run (mount (Some stationA)) [])) = 1" by (simp add: r playerA_def)
  note t = C3_session_exclusivity[OF refl m, THEN conjunct2]
  note t1 = t[THEN conjunct1, rule_format, OF d]
  from t1[THEN conjunct2, THEN conjunct2, THEN conjunct2, THEN conjunct1]
  have a: "liveHowls (step (run (mount (Some stationA)) []) (StationChanged (Some stationC))) = [1]"
    by (simp add: n url_samples)
  from t1[THEN conjunct2, THEN conjunct2, THEN conjunct1]
  have b: "unloadedH (howls (step (run (mount (Some stationA)) []) (StationChanged (Some stationC))) ! 0)"
    by (simp add: n)
  from t have c: "station (step (run (mount (Some stationA)) []) (StationChanged (Some stationC))) = Some stationC"
    by blast
  from m d l a b c show ?thesis by blast
qed

text \<open>
  Claim C8 as stated fails: after \<open>C\<close> has been selected, the handle of \<open>A\<close> is unloaded
  and \<open>C\<close>'s session is loading without error; a late \<open>onload\<close> of \<open>A\<close>'s handle clears
  the loading flag, and a late \<open>onplayerror\<close> of \<open>A\<close>'s handle sets the error.
\<close>

theorem C8_counterexample:
  "soundRef (run (mount (Some stationA)) [StationChanged (Some stationC)]) = Some 1 \<and>
   unloadedH (howls (run (mount (Some stationA)) [StationChanged (Some stationC)]) ! 0) \<and>
   isLoading (run (mount (Some stationA)) [StationChanged (Some stationC)]) = True \<and>
   error (run (mount (Some stationA)) [StationChanged (Some stationC)]) = None \<and>
   isLoading (run (mount (Some stationA)) [StationChanged (Some stationC), HowlEvent 0 OnLoad]) = False \<and>
   error (run (mount (Some stationA)) [StationChanged (Some stationC), HowlEvent 0 OnPlayError]) =
     Some ''Failed to play station''"
proof -
  have r: "run (mount (Some stationA)) [StationChanged (Some stationC)] = playerAC"
    using playerA_C by (simp add: run_def mount_A)
  have r1: "run (mount (Some stationA)) [StationChanged (Some stationC), HowlEvent 0 OnLoad] =
            step playerAC (HowlEvent 0 OnLoad)"
    using playerA_C by (simp add: run_def mount_A)
  have r2: "run (mount (Some stationA)) [StationChanged (Some stationC), HowlEvent 0 OnPlayError] =
            step playerAC (HowlEvent 0 OnPlayError)"
    using playerA_C by (simp add: run_def mount_A)
  show ?thesis unfolding r r1 r2 by (simp add: step_def playerAC_def howlOne_def)
qed

text \<open>
  Witness for C8 (amended): after \<open>A\<close> then \<open>C\<close>, the only live handle is the one
  \<open>soundRef\<close> holds, and it plays \<open>C\<close>'s URL.
\<close>

theorem C8_live_howl_is_current_witness:
  "liveHowls (run (mount (Some stationA)) [StationChanged (Some stationC)]) = [1] \<and>
   soundRef (run (mount (Some stationA)) [StationChanged (Some stationC)]) = Some 1 \<and>
   src (howls (run (mount (Some stationA)) [StationChanged (Some stationC)]) ! 1) = [url stationC]"
proof -
  have r: "run (mount (Some stationA)) [StationChanged (Some stationC)] = playerAC"
    using playerA_C by (simp add: run_def mount_A)
  have l: "liveHowls (run (mount (Some stationA)) [StationChanged (Some stationC)]) = [1]"
    unfolding r by (simp add: playerAC_def liveHowls_def howlOne_def howlTwo_def)
  then have "1 \<in> set (liveHowls (run (mount (Some stationA)) [StationChanged (Some stationC)]))"
    by simp
  with C8_live_howl_is_current[OF refl, of "Some stationA" "[StationChanged (Some stationC)]", THEN conjunct1]
  have "soundRef (run (mount (Some stationA)) [StationChanged (Some stationC)]) = Some 1 \<and>
        (\<exists>s. station (run (mount (Some stationA)) [StationChanged (Some stationC)]) = Some s \<and>
             src (howls (run (mount (Some stationA)) [StationChanged (Some stationC)]) ! 1) = [url s])"
    by blast
  moreover have "station (run (mount (Some stationA)) [StationChanged (Some stationC)]) = Some stationC"
    unfolding r by (simp add: playerAC_def)
  ultimately show ?thesis using l by auto
qed

text \<open>
  Witness for C9: mounted with \<open>A\<close>, volume set to \<open>0.3\<close>, a load error, then \<open>C\<close>
  selected: the handle of \<open>A\<close> got volume \<open>0.3\<close> and the handle of \<open>C\<close> starts with it.
\<close>

theorem C9_volume_applied_and_retained_witness:
  "mounted (run (mount (Some stationA)) []) \<and>
   soundRef (run (mount (Some stationA)) []) = Some 0 \<and>
   volumeH (howls (step (run (mount (Some stationA)) []) (VolumeChanged (3 / 10))) ! 0) = 3 / 10 \<and>
   error (run (step (run (mount (Some stationA)) []) (VolumeChanged (3 / 10))) [HowlEvent 0 OnLoadError])
     = Some ''Failed to load station'' \<and>
   volumeH (howls (step (run (step (run (mount (Some stationA)) []) (VolumeChanged (3 / 10)))
                           [HowlEvent 0 OnLoadError])
                     (StationChanged (Some stationC))) ! 1) = 3 / 10"
proof -
  let ?st = "run (mount (Some stationA)) []"
  let ?st1 = "run (step ?st (VolumeChanged (3 / 10))) [HowlEvent 0 OnLoadError]"
  have r: "?st = playerA" by (simp add: run_def mount_A)
  have m: "mounted ?st" by (simp add: r playerA_def)
  have sr: "soundRef ?st = Some 0" by (simp add: r playerA_def)
  have v: "step ?st (VolumeChanged (3 / 10)) =
           playerA\<lparr>volume := 3 / 10, howls := [howlOne (3 / 10) True False]\<rparr>"
    unfolding r
    by (simp add: step_def playerA_def handleVolumeChange_def volumeEffect_def setVolumeH_def
        howlOne_def)
  have st1: "?st1 = playerA\<lparr>volume := 3 / 10, howls := [howlOne (3 / 10) True False],
                             isLoading := False, error := Some ''Failed to load station''\<rparr>"
    unfolding v by (simp add: run_def step_def playerA_def)
  have k: "list_all keepsVolume [HowlEvent 0 OnLoadError]" by (simp add: keepsVolume_def)
  have m1: "mounted ?st1" unfolding st1 by (simp add: playerA_def)
  have d1: "urlDep (Some stationC) \<noteq> urlDep (station ?st1)"
    unfolding st1 by (simp add: playerA_def urlDep_def url_samples)
  have u: "url stationC \<noteq> []" by (simp add: url_samples)
  have n: "length (howls ?st1) = 1" unfolding st1 by (simp add: playerA_def)
  note t = C9_volume_applied_and_retained[OF refl m, of "3 / 10"]
  from t sr have a: "volumeH (howls (step ?st (VolumeChanged (3 / 10))) ! 0) = 3 / 10" by blast
  from t k m1 d1 u
  have "\<exists>h'. soundRef (step ?st1 (StationChanged (Some stationC))) = Some h' \<and>
             h' = length (howls ?st1) \<and>
             howls (step ?st1 (StationChanged (Some stationC))) ! h' =
               \<lparr>src = [url stationC], html5 = True, format = [''mp3'', ''aac''], volumeH = 3 / 10,
                  playingH = True, unloadedH = False\<rparr>"
    by blast
  then have b: "volumeH (howls (step ?st1 (StationChanged (Some stationC))) ! 1) = 3 / 10"
    unfolding n by simp
  have e: "error ?st1 = Some ''Failed to load station''" unfolding st1 by simp
  from m sr a e b show ?thesis by blast
qed

text \<open>
  Witness for C10: mounted with \<open>A\<close>, then \<open>B\<close> (another station, same URL) is selected.
\<close>

theorem C10_same_url_keeps_session_witness:
  "mounted (mount (Some stationA)) \<and> station (mount (Some stationA)) = Some stationA \<and>
   url stationB = url stationA \<and> stationId stationB \<noteq> stationId stationA \<and>
   step (mount (Some stationA)) (StationChanged (Some stationB)) =
     (mount (Some stationA))\<lparr>station := Some stationB\<rparr> \<and>
   soundRef (step (mount (Some stationA)) (StationChanged (Some stationB))) = Some 0"
proof -
  have m: "mounted (mount (Some stationA))" by (simp add: mount_A playerA_def)
  have s: "station (mount (Some stationA)) = Some stationA" by (simp add: mount_A playerA_def)
  have u: "url stationB = url stationA" by (simp add: url_samples)
  have i: "stationId stationB \<noteq> stationId stationA"
    by (simp add: stationA_def stationB_def station0_def)
  have r: "soundRef (mount (Some stationA)) = Some 0" by (simp add: mount_A playerA_def)
  from C10_same_url_keeps_session[OF m s u] m s u i r show ?thesis by simp
qed

end
